theory Spec2Isabelle
  imports Main "HOL-Library.Sublist"
begin

section \<open>Secure chttp2 server listener (server\_secure\_chttp2.c)\<close>

text \<open>
  The file under verification orchestrates collaborators it does not implement (the TCP
  server, the handshake manager, the security connector, the transport). Pointers to
  their objects are modelled by their identity (a natural number); every call into a
  collaborator is recorded, in program order, as a \<open>call\<close> in the list a function
  returns beside the updated listener state. Values a collaborator hands back
  (a fresh handshake manager, the current time, the result of binding an address) are
  parameters of the model.
\<close>

subsection \<open>Data\<close>

type_synonym grpc_handshake_manager = nat
type_synonym grpc_endpoint = nat
type_synonym grpc_pollset = nat
type_synonym grpc_tcp_server_acceptor = nat
type_synonym grpc_server = nat
type_synonym grpc_tcp_server = nat
type_synonym grpc_server_security_connector = nat
type_synonym grpc_closure = nat
type_synonym grpc_slice_buffer = nat
type_synonym grpc_resolved_address = nat

record grpc_server_credentials =
  creds_ptr :: nat
  creds_type :: string

datatype grpc_security_status = GRPC_SECURITY_OK | GRPC_SECURITY_ERROR

text \<open>
  An error object. A \<open>grpc_error *\<close> is \<open>grpc_error option\<close>: \<open>GRPC_ERROR_NONE\<close> is the
  null pointer \<open>None\<close>. \<open>Collaborator_error\<close> stands for the errors collaborators create.
\<close>

datatype grpc_error =
    GRPC_ERROR_CREATE string
  | GRPC_ERROR_CREATE_REFERENCING string "grpc_error option list"
  | Grpc_error_set_int grpc_error string grpc_security_status
  | Collaborator_error nat

abbreviation GRPC_ERROR_NONE :: "grpc_error option" where
  "GRPC_ERROR_NONE \<equiv> None"

datatype gpr_clock_type =
  GPR_CLOCK_MONOTONIC | GPR_CLOCK_REALTIME | GPR_CLOCK_PRECISE | GPR_TIMESPAN

record gpr_timespec =
  tv_sec :: int
  tv_nsec :: int
  clock_type :: gpr_clock_type

datatype grpc_arg = Server_credentials_arg grpc_server_credentials

datatype grpc_channel_args =
    Channel_args nat
  | Server_get_channel_args grpc_server
  | Channel_args_copy_and_add grpc_channel_args "grpc_arg list"

datatype grpc_transport = Chttp2_transport grpc_channel_args grpc_endpoint nat

text \<open>\<open>struct server_secure_connection_state\<close>; its \<open>server_state\<close> pointer is the
  listener state the functions below take as their first argument.\<close>

record server_secure_connection_state =
  accepting_pollset :: grpc_pollset
  acceptor :: grpc_tcp_server_acceptor
  handshake_mgr :: grpc_handshake_manager

text \<open>The fields of \<open>grpc_handshaker_args\<close> that \<open>on_handshake_done\<close> reads.\<close>

record grpc_handshaker_args =
  endpoint :: grpc_endpoint
  args :: grpc_channel_args
  read_buffer :: grpc_slice_buffer
  user_data :: server_secure_connection_state

datatype callback = On_handshake_done

text \<open>
  \<open>struct server_secure_state\<close>. The linked list \<open>pending_handshake_mgrs\<close> is the list
  of the handshake managers its nodes hold, head first. The mutex \<open>mu\<close> appears as the
  lock and unlock calls; the closure \<open>tcp_server_shutdown_complete\<close> is fixed at creation.
\<close>

record server_secure_state =
  server :: grpc_server
  tcp_server :: grpc_tcp_server
  sc :: grpc_server_security_connector
  creds :: grpc_server_credentials
  shutdown :: bool
  server_destroy_listener_done :: "grpc_closure option"
  pending_handshake_mgrs :: "grpc_handshake_manager list"

text \<open>Calls into the support library (\<open>gpr_*\<close>).\<close>

datatype gpr_call =
    Mu_init
  | Mu_lock
  | Mu_unlock
  | Mu_destroy
  | Malloc_node grpc_handshake_manager
  | Free_node grpc_handshake_manager
  | Malloc_connection_state server_secure_connection_state
  | Free_connection_state server_secure_connection_state
  | Free_read_buffer grpc_slice_buffer
  | Malloc_state
  | Free_state
  | Malloc_errors nat
  | Free_errors
  | Log_error_handshaking_failed "grpc_error option"
  | Log_error grpc_error
  | Log_info_warning grpc_error

text \<open>Calls into the I/O manager: endpoints, the TCP server, the resolver, closures,
  the execution context and error objects.\<close>

datatype iomgr_call =
    Endpoint_destroy grpc_endpoint
  | Tcp_server_create
  | Tcp_server_ref grpc_tcp_server
  | Tcp_server_unref grpc_tcp_server
  | Tcp_server_start grpc_tcp_server
  | Tcp_server_shutdown_listeners grpc_tcp_server
  | Tcp_server_add_port grpc_tcp_server grpc_resolved_address
  | Blocking_resolve_address string string
  | Resolved_addresses_destroy
  | Closure_init
  | Closure_run grpc_closure "grpc_error option"
  | Exec_ctx_flush
  | Exec_ctx_finish
  | Error_unref "grpc_error option"

text \<open>Calls into the handshake manager, the security layer, the transport and the
  server surface.\<close>

datatype grpc_call =
    Api_trace
  | Handshake_manager_create grpc_handshake_manager
  | Handshake_manager_shutdown grpc_handshake_manager
  | Handshake_manager_destroy grpc_handshake_manager
  | Handshake_manager_do_handshake grpc_handshake_manager grpc_endpoint
      grpc_channel_args gpr_timespec grpc_tcp_server_acceptor callback
      server_secure_connection_state
  | Server_security_connector_create_handshakers
      grpc_server_security_connector grpc_handshake_manager
  | Security_connector_unref grpc_server_security_connector
  | Server_credentials_create_security_connector grpc_server_credentials
  | Server_credentials_ref grpc_server_credentials
  | Server_credentials_unref grpc_server_credentials
  | Create_chttp2_transport grpc_transport
  | Server_setup_transport grpc_server grpc_transport grpc_pollset grpc_channel_args
  | Chttp2_transport_start_reading grpc_transport grpc_slice_buffer
  | Channel_args_destroy grpc_channel_args
  | Server_add_listener grpc_server

datatype call = Gpr gpr_call | Iomgr iomgr_call | Grpc grpc_call

text \<open>A failed \<open>GPR_ASSERT\<close> aborts the process.\<close>

datatype abort = GPR_ASSERT_failed string

subsection \<open>The pending-handshake registry\<close>

text \<open>\<open>pending_handshake_manager_add_locked\<close>: the new node becomes the head.\<close>

definition pending_handshake_manager_add_locked ::
  "server_secure_state \<Rightarrow> grpc_handshake_manager \<Rightarrow> server_secure_state \<times> call list" where
  "pending_handshake_manager_add_locked state hm =
     (state\<lparr>pending_handshake_mgrs := hm # pending_handshake_mgrs state\<rparr>,
      [Gpr (Malloc_node hm)])"

text \<open>
  The loop of \<open>pending_handshake_manager_remove_locked\<close>: walk the nodes; at the first
  node holding the manager, link its predecessor to its successor, free it and stop.
  The result is the remaining list and the calls made.
\<close>

fun remove_loop ::
  "grpc_handshake_manager list \<Rightarrow> grpc_handshake_manager
     \<Rightarrow> grpc_handshake_manager list \<times> call list" where
  "remove_loop [] hm = ([], [])"
| "remove_loop (node # next) hm =
     (if node = hm then (next, [Gpr (Free_node node)])
      else (case remove_loop next hm of (rest, cs) \<Rightarrow> (node # rest, cs)))"

definition pending_handshake_manager_remove_locked ::
  "server_secure_state \<Rightarrow> grpc_handshake_manager \<Rightarrow> server_secure_state \<times> call list" where
  "pending_handshake_manager_remove_locked state hm =
     (case remove_loop (pending_handshake_mgrs state) hm of
        (rest, cs) \<Rightarrow> (state\<lparr>pending_handshake_mgrs := rest\<rparr>, cs))"

text \<open>
  The loop of \<open>pending_handshake_manager_shutdown_locked\<close>: each node's manager is shut
  down, then the node before it is freed (\<open>gpr_free(NULL)\<close> does nothing); the last
  node is freed after the loop.
\<close>

fun gpr_free_prev_node :: "grpc_handshake_manager option \<Rightarrow> call list" where
  "gpr_free_prev_node None = []"
| "gpr_free_prev_node (Some node) = [Gpr (Free_node node)]"

fun shutdown_loop ::
  "grpc_handshake_manager option \<Rightarrow> grpc_handshake_manager list \<Rightarrow> call list" where
  "shutdown_loop prev_node [] = gpr_free_prev_node prev_node"
| "shutdown_loop prev_node (node # next) =
     Grpc (Handshake_manager_shutdown node) # gpr_free_prev_node prev_node
       @ shutdown_loop (Some node) next"

definition pending_handshake_manager_shutdown_locked ::
  "server_secure_state \<Rightarrow> server_secure_state \<times> call list" where
  "pending_handshake_manager_shutdown_locked state =
     (state\<lparr>pending_handshake_mgrs := []\<rparr>,
      shutdown_loop None (pending_handshake_mgrs state))"

subsection \<open>Time\<close>

text \<open>Modelled from the spec: \<open>gpr_time_from_seconds\<close> (absent from the sources at hand)
  yields a time span of the given number of seconds.\<close>

definition gpr_time_from_seconds :: "int \<Rightarrow> gpr_clock_type \<Rightarrow> gpr_timespec" where
  "gpr_time_from_seconds s ty = \<lparr>tv_sec = s, tv_nsec = 0, clock_type = ty\<rparr>"

text \<open>Modelled from the spec: \<open>gpr_time_add\<close> (absent from the sources at hand) yields
  the instant lying the given span after the given instant, on the instant's clock.\<close>

definition gpr_time_add :: "gpr_timespec \<Rightarrow> gpr_timespec \<Rightarrow> gpr_timespec" where
  "gpr_time_add a b =
     (let ns = tv_nsec a + tv_nsec b in
      \<lparr>tv_sec = tv_sec a + tv_sec b + ns div 1000000000,
       tv_nsec = ns mod 1000000000,
       clock_type = clock_type a\<rparr>)"

text \<open>An instant or span in nanoseconds.\<close>

definition time_nanos :: "gpr_timespec \<Rightarrow> int" where
  "time_nanos t = tv_sec t * 1000000000 + tv_nsec t"

subsection \<open>The accept path\<close>

text \<open>
  \<open>on_accept\<close>. \<open>hm\<close> is the manager \<open>grpc_handshake_manager_create\<close> returns and \<open>now\<close>
  the value of \<open>gpr_now(GPR_CLOCK_MONOTONIC)\<close>; neither call is made when the listener
  is shut down.
\<close>

definition on_accept ::
  "server_secure_state \<Rightarrow> grpc_endpoint \<Rightarrow> grpc_pollset \<Rightarrow> grpc_tcp_server_acceptor
     \<Rightarrow> grpc_handshake_manager \<Rightarrow> gpr_timespec \<Rightarrow> server_secure_state \<times> call list" where
  "on_accept state tcp pollset acc hm now =
     (if shutdown state then
        (state, [Gpr Mu_lock, Gpr Mu_unlock, Iomgr (Endpoint_destroy tcp)])
      else
        (case pending_handshake_manager_add_locked state hm of (state', cs) \<Rightarrow>
           let connection_state =
                 \<lparr>accepting_pollset = pollset, acceptor = acc, handshake_mgr = hm\<rparr>;
               deadline = gpr_time_add now (gpr_time_from_seconds 120 GPR_TIMESPAN)
           in (state',
               [Gpr Mu_lock, Grpc (Handshake_manager_create hm)] @ cs @
               [Gpr Mu_unlock,
                Iomgr (Tcp_server_ref (tcp_server state')),
                Gpr (Malloc_connection_state connection_state),
                Grpc (Server_security_connector_create_handshakers (sc state')
                  (handshake_mgr connection_state)),
                Grpc (Handshake_manager_do_handshake (handshake_mgr connection_state) tcp
                  (Server_get_channel_args (server state')) deadline acc
                  On_handshake_done connection_state)])))"

text \<open>
  \<open>on_handshake_done\<close>: the branch taken before the common tail, then the tail.
  \<open>state\<close> is \<open>connection_state->server_state\<close>.
\<close>

definition on_handshake_done_branch ::
  "server_secure_state \<Rightarrow> grpc_handshaker_args \<Rightarrow> grpc_error option \<Rightarrow> call list" where
  "on_handshake_done_branch state hargs error =
     (if error \<noteq> GRPC_ERROR_NONE then
        [Gpr (Log_error_handshaking_failed error),
         Iomgr (Endpoint_destroy (endpoint hargs)),
         Gpr (Free_read_buffer (read_buffer hargs)),
         Gpr Mu_lock]
      else if \<not> shutdown state then
        (let args_copy =
               Channel_args_copy_and_add (args hargs) [Server_credentials_arg (creds state)];
             transport = Chttp2_transport args_copy (endpoint hargs) 0
         in [Gpr Mu_lock,
             Grpc (Create_chttp2_transport transport),
             Grpc (Server_setup_transport (server state) transport
               (accepting_pollset (user_data hargs)) args_copy),
             Grpc (Channel_args_destroy args_copy),
             Grpc (Chttp2_transport_start_reading transport (read_buffer hargs))])
      else
        [Gpr Mu_lock, Iomgr (Endpoint_destroy (endpoint hargs))])"

definition on_handshake_done ::
  "server_secure_state \<Rightarrow> grpc_handshaker_args \<Rightarrow> grpc_error option
     \<Rightarrow> server_secure_state \<times> call list" where
  "on_handshake_done state hargs error =
     (let connection_state = user_data hargs in
      case pending_handshake_manager_remove_locked state (handshake_mgr connection_state) of
        (state', cs) \<Rightarrow>
          (state',
           on_handshake_done_branch state hargs error @ cs @
           [Gpr Mu_unlock,
            Grpc (Handshake_manager_destroy (handshake_mgr connection_state)),
            Iomgr (Tcp_server_unref (tcp_server state')),
            Gpr (Free_connection_state connection_state),
            Grpc (Channel_args_destroy (args hargs))]))"

subsection \<open>The listener callbacks\<close>

definition server_start_listener :: "server_secure_state \<Rightarrow> server_secure_state \<times> call list" where
  "server_start_listener state =
     (state\<lparr>shutdown := False\<rparr>,
      [Gpr Mu_lock, Gpr Mu_unlock, Iomgr (Tcp_server_start (tcp_server state))])"

text \<open>\<open>tcp_server_shutdown_complete\<close>; the state it returns is the one it frees last.\<close>

definition tcp_server_shutdown_complete ::
  "server_secure_state \<Rightarrow> grpc_error option \<Rightarrow> abort + server_secure_state \<times> call list" where
  "tcp_server_shutdown_complete state error =
     (let destroy_done = server_destroy_listener_done state in
      if \<not> shutdown state then Inl (GPR_ASSERT_failed ''state->shutdown'')
      else
        (case pending_handshake_manager_shutdown_locked state of (state', cs) \<Rightarrow>
           Inr (state',
                [Gpr Mu_lock] @ cs @
                [Gpr Mu_unlock,
                 Iomgr Exec_ctx_flush,
                 Grpc (Security_connector_unref (sc state')),
                 Grpc (Server_credentials_unref (creds state'))] @
                (case destroy_done of
                   None \<Rightarrow> []
                 | Some cl \<Rightarrow> [Iomgr (Closure_run cl error), Iomgr Exec_ctx_flush]) @
                [Gpr Mu_destroy, Gpr Free_state])))"

definition server_destroy_listener ::
  "server_secure_state \<Rightarrow> grpc_closure option \<Rightarrow> server_secure_state \<times> call list" where
  "server_destroy_listener state destroy_done =
     (let state' = state\<lparr>shutdown := True, server_destroy_listener_done := destroy_done\<rparr>;
          tcp = tcp_server state'
      in (state',
          [Gpr Mu_lock, Gpr Mu_unlock,
           Iomgr (Tcp_server_shutdown_listeners tcp),
           Iomgr (Tcp_server_unref tcp)]))"

subsection \<open>Sequences of operations on a listener\<close>

text \<open>
  The operations the server, the TCP server and the handshake managers run on a listener
  state while it exists, with the arguments they pass; \<open>run_ops\<close> runs a sequence of them
  and collects the calls. (\<open>tcp_server_shutdown_complete\<close> frees the state and ends its
  life.)
\<close>

datatype listener_op =
    Start_listener
  | Accept grpc_endpoint grpc_pollset grpc_tcp_server_acceptor grpc_handshake_manager
      gpr_timespec
  | Handshake_done grpc_handshaker_args "grpc_error option"
  | Destroy_listener "grpc_closure option"

fun apply_op :: "server_secure_state \<Rightarrow> listener_op \<Rightarrow> server_secure_state \<times> call list" where
  "apply_op state Start_listener = server_start_listener state"
| "apply_op state (Accept tcp pollset acc hm now) = on_accept state tcp pollset acc hm now"
| "apply_op state (Handshake_done hargs error) = on_handshake_done state hargs error"
| "apply_op state (Destroy_listener destroy_done) = server_destroy_listener state destroy_done"

fun run_ops :: "server_secure_state \<Rightarrow> listener_op list \<Rightarrow> server_secure_state \<times> call list" where
  "run_ops state [] = (state, [])"
| "run_ops state (op # ops) =
     (case apply_op state op of (state', cs) \<Rightarrow>
        (case run_ops state' ops of (state'', cs') \<Rightarrow> (state'', cs @ cs')))"

subsection \<open>The port binder\<close>

text \<open>\<open>%PRIuPTR\<close>: an unsigned number in decimal.\<close>

definition digit_char :: "nat \<Rightarrow> char" where
  "digit_char d = ''0123456789'' ! d"

function decimal :: "nat \<Rightarrow> string" where
  "decimal n =
     (if n div 10 = 0 then [digit_char n] else decimal (n div 10) @ [digit_char (n mod 10)])"
  by pat_completeness auto
termination
  by (relation "measure (\<lambda>n. n)") auto

declare decimal.simps [simp del]

text \<open>
  What the collaborators of \<open>grpc_server_add_secure_http2_port\<close> answer. Each either
  succeeds (\<open>Inr\<close> or \<open>Some\<close>, with the object it stores through its out-parameter) or
  fails and leaves its out-parameter as it was: the connector factory with
  \<open>GRPC_SECURITY_ERROR\<close>, the others with an error object. \<open>tcp_server_add_port\<close> is
  asked once per resolved address, by index; on success it reports the bound port.
\<close>

record bind_env =
  create_security_connector ::
    "grpc_server_credentials \<Rightarrow> grpc_server_security_connector option"
  blocking_resolve_address ::
    "string \<Rightarrow> string \<Rightarrow> grpc_error + grpc_resolved_address list"
  tcp_server_create :: "grpc_channel_args \<Rightarrow> grpc_error + grpc_tcp_server"
  tcp_server_add_port :: "nat \<Rightarrow> grpc_resolved_address \<Rightarrow> grpc_error + int"

text \<open>What a call returns: the port, the listener state registered with the server
  (if any) and the calls made; or the process aborts.\<close>

type_synonym bind_result = "abort + int \<times> server_secure_state option \<times> call list"

definition after_calls :: "call list \<Rightarrow> bind_result \<Rightarrow> bind_result" where
  "after_calls cs r =
     (case r of Inl a \<Rightarrow> Inl a | Inr (port, st, cs') \<Rightarrow> Inr (port, st, cs @ cs'))"

text \<open>
  The \<open>error:\<close> label. Its arguments are the locals it inspects: \<open>err\<close>, \<open>errors\<close>,
  \<open>resolved\<close>, \<open>tcp_server\<close>, \<open>sc\<close>, and whether \<open>state\<close> is non-null.
\<close>

definition bind_error ::
  "grpc_error option \<Rightarrow> grpc_error option list option \<Rightarrow> grpc_resolved_address list option
     \<Rightarrow> grpc_tcp_server option \<Rightarrow> grpc_server_security_connector option \<Rightarrow> bool
     \<Rightarrow> bind_result" where
  "bind_error err errors resolved tcp sc_opt state_allocated =
     (case err of
        None \<Rightarrow> Inl (GPR_ASSERT_failed ''err != GRPC_ERROR_NONE'')
      | Some e \<Rightarrow>
          Inr (0, None,
            (case errors of
               None \<Rightarrow> []
             | Some es \<Rightarrow> map (\<lambda>x. Iomgr (Error_unref x)) es @ [Gpr Free_errors]) @
            (case resolved of None \<Rightarrow> [] | Some _ \<Rightarrow> [Iomgr Resolved_addresses_destroy]) @
            (case tcp of
               Some t \<Rightarrow> [Iomgr (Tcp_server_unref t)]
             | None \<Rightarrow>
                 (case sc_opt of
                    None \<Rightarrow> []
                  | Some s \<Rightarrow> [Iomgr Exec_ctx_flush, Grpc (Security_connector_unref s)]) @
                 (if state_allocated then [Gpr Free_state] else [])) @
            [Iomgr Exec_ctx_finish, Iomgr (Error_unref (Some e)), Gpr (Log_error e)]))"

text \<open>
  The loop over the resolved addresses, from index \<open>i\<close> on: \<open>port_num\<close> starts at \<open>-1\<close>,
  \<open>count\<close> at \<open>0\<close>, and \<open>errors\<close> collects \<open>errors[0..i)\<close>.
\<close>

fun add_port_loop ::
  "(nat \<Rightarrow> grpc_resolved_address \<Rightarrow> grpc_error + int) \<Rightarrow> grpc_tcp_server \<Rightarrow> nat
     \<Rightarrow> grpc_resolved_address list \<Rightarrow> int \<Rightarrow> nat \<Rightarrow> grpc_error option list \<Rightarrow> call list
     \<Rightarrow> abort + int \<times> nat \<times> grpc_error option list \<times> call list" where
  "add_port_loop add_port tcp i [] port_num count errors cs =
     Inr (port_num, count, errors, cs)"
| "add_port_loop add_port tcp i (a # addrs) port_num count errors cs =
     (let cs' = cs @ [Iomgr (Tcp_server_add_port tcp a)] in
      case add_port i a of
        Inl e \<Rightarrow> add_port_loop add_port tcp (i + 1) addrs port_num count (errors @ [Some e]) cs'
      | Inr port_temp \<Rightarrow>
          if port_num = - 1 then
            add_port_loop add_port tcp (i + 1) addrs port_temp (count + 1)
              (errors @ [GRPC_ERROR_NONE]) cs'
          else if port_num = port_temp then
            add_port_loop add_port tcp (i + 1) addrs port_num (count + 1)
              (errors @ [GRPC_ERROR_NONE]) cs'
          else Inl (GPR_ASSERT_failed ''port_num == port_temp''))"

text \<open>The function from the creation of the TCP server on (after \<open>grpc_tcp_server_create\<close>
  has succeeded).\<close>

text \<open>The listener state once its fields are set: zeroed by \<open>memset\<close>, then
  \<open>server\<close>, \<open>tcp_server\<close>, \<open>sc\<close>, \<open>creds\<close> assigned and \<open>shutdown\<close> set to \<open>true\<close>.\<close>

definition fresh_state ::
  "grpc_server \<Rightarrow> grpc_tcp_server \<Rightarrow> grpc_server_security_connector
     \<Rightarrow> grpc_server_credentials \<Rightarrow> server_secure_state" where
  "fresh_state srv tcp s cr =
     \<lparr>server = srv, tcp_server = tcp, sc = s, creds = cr, shutdown = True,
      server_destroy_listener_done = None, pending_handshake_mgrs = []\<rparr>"

definition bind_ports ::
  "bind_env \<Rightarrow> grpc_server \<Rightarrow> grpc_server_credentials \<Rightarrow> grpc_server_security_connector
     \<Rightarrow> grpc_resolved_address list \<Rightarrow> grpc_tcp_server \<Rightarrow> bind_result" where
  "bind_ports env srv cr s resolved tcp =
     (let state = fresh_state srv tcp s cr;
          naddrs = length resolved
      in case add_port_loop (tcp_server_add_port env) tcp 0 resolved (- 1) 0 []
                [Grpc (Server_credentials_ref cr), Gpr Mu_init, Gpr (Malloc_errors naddrs)] of
           Inl a \<Rightarrow> Inl a
         | Inr (port_num, count, errors, cs) \<Rightarrow>
             if count = 0 then
               after_calls cs
                 (bind_error
                    (Some (GRPC_ERROR_CREATE_REFERENCING
                       (''No address added out of total '' @ decimal naddrs @ '' resolved'')
                       errors))
                    (Some errors) (Some resolved) (Some tcp) (Some s) True)
             else if count \<noteq> naddrs then
               Inr (port_num, Some state,
                 cs @
                 [Gpr (Log_info_warning
                    (GRPC_ERROR_CREATE_REFERENCING
                       (''Only '' @ decimal count @ '' addresses added out of total ''
                          @ decimal naddrs @ '' resolved'')
                       errors)),
                  Gpr Free_errors, Iomgr Resolved_addresses_destroy,
                  Grpc (Server_add_listener srv), Iomgr Exec_ctx_finish])
             else
               Inr (port_num, Some state,
                 cs @ map (\<lambda>x. Iomgr (Error_unref x)) errors @
                 [Gpr Free_errors, Iomgr Resolved_addresses_destroy,
                  Grpc (Server_add_listener srv), Iomgr Exec_ctx_finish]))"

definition grpc_server_add_secure_http2_port ::
  "bind_env \<Rightarrow> grpc_server \<Rightarrow> string \<Rightarrow> grpc_server_credentials option \<Rightarrow> bind_result" where
  "grpc_server_add_secure_http2_port env srv addr creds_opt =
     after_calls [Grpc Api_trace]
       (case creds_opt of
          None \<Rightarrow>
            bind_error
              (Some (GRPC_ERROR_CREATE
                 ''No credentials specified for secure server port (creds==NULL)''))
              None None None None False
        | Some cr \<Rightarrow>
            after_calls [Grpc (Server_credentials_create_security_connector cr)]
              (case create_security_connector env cr of
                 None \<Rightarrow>
                   bind_error
                     (Some (Grpc_error_set_int
                        (GRPC_ERROR_CREATE
                           (''Unable to create secure server with credentials of type ''
                              @ creds_type cr @ ''.''))
                        ''GRPC_ERROR_INT_SECURITY_STATUS'' GRPC_SECURITY_ERROR))
                     None None None None False
               | Some s \<Rightarrow>
                   after_calls [Iomgr (Blocking_resolve_address addr ''https'')]
                     (case blocking_resolve_address env addr ''https'' of
                        Inl e \<Rightarrow> bind_error (Some e) None None None (Some s) False
                      | Inr resolved \<Rightarrow>
                          after_calls [Gpr Malloc_state, Iomgr Closure_init, Iomgr Tcp_server_create]
                            (case tcp_server_create env (Server_get_channel_args srv) of
                               Inl e \<Rightarrow>
                                 bind_error (Some e) None (Some resolved) None (Some s) True
                             | Inr tcp \<Rightarrow> bind_ports env srv cr s resolved tcp))))"

subsection \<open>The collaborators of a listener\<close>

text \<open>
  Modelled from the spec: the state the TCP server and the handshake managers keep for
  one listener (their sources are not at hand). \<open>lstate\<close> is the listener state, \<open>None\<close>
  once \<open>tcp_server_shutdown_complete\<close> has freed it; \<open>tcp_refs\<close> is the reference count of
  the TCP server; \<open>in_flight\<close> are the handshake managers whose handshake has been started
  and whose completion callback has not run yet; \<open>destroyed\<close> tells whether the server has
  destroyed the listener; \<open>completions\<close> counts the runs of the shutdown-complete closure;
  \<open>tcp_shutdown_error\<close> is the error the TCP server passes to it; \<open>calls\<close> are all calls
  made so far, in order.
\<close>

record listener =
  lstate :: "server_secure_state option"
  tcp_refs :: nat
  in_flight :: "grpc_handshake_manager list"
  destroyed :: bool
  completions :: nat
  tcp_shutdown_error :: "grpc_error option"
  calls :: "call list"

text \<open>Modelled from the spec: \<open>grpc_tcp_server_create\<close> hands the listener one reference
  on the TCP server, the one \<open>server_destroy_listener\<close> releases.\<close>

definition new_listener :: "server_secure_state \<Rightarrow> grpc_error option \<Rightarrow> listener" where
  "new_listener state error =
     \<lparr>lstate = Some state, tcp_refs = 1, in_flight = [], destroyed = False, completions = 0,
      tcp_shutdown_error = error, calls = []\<rparr>"

text \<open>Modelled from the spec: \<open>grpc_tcp_server_ref\<close> takes one more reference.\<close>

definition grpc_tcp_server_ref :: "listener \<Rightarrow> listener" where
  "grpc_tcp_server_ref l = l\<lparr>tcp_refs := tcp_refs l + 1\<rparr>"

text \<open>
  Modelled from the spec: \<open>grpc_tcp_server_unref\<close> releases one reference; releasing the
  last one makes the TCP server report its shutdown complete, which runs the closure given
  at creation, \<open>tcp_server_shutdown_complete\<close>, on the listener state; that call frees the
  state.
\<close>

definition grpc_tcp_server_unref :: "listener \<Rightarrow> abort + listener" where
  "grpc_tcp_server_unref l =
     (if tcp_refs l \<noteq> 1 then Inr (l\<lparr>tcp_refs := tcp_refs l - 1\<rparr>)
      else
        (case lstate l of
           None \<Rightarrow> Inr (l\<lparr>tcp_refs := 0\<rparr>)
         | Some state \<Rightarrow>
             (case tcp_server_shutdown_complete state (tcp_shutdown_error l) of
                Inl a \<Rightarrow> Inl a
              | Inr (state', cs) \<Rightarrow>
                  Inr (l\<lparr>lstate := None, tcp_refs := 0, completions := completions l + 1,
                         calls := calls l @ cs\<rparr>))))"

text \<open>Modelled from the spec: \<open>grpc_handshake_manager_do_handshake\<close> starts the handshake
  of a manager, which is in flight until its completion callback runs.\<close>

definition grpc_handshake_manager_do_handshake ::
  "listener \<Rightarrow> grpc_handshake_manager \<Rightarrow> listener" where
  "grpc_handshake_manager_do_handshake l hm = l\<lparr>in_flight := hm # in_flight l\<rparr>"

text \<open>Modelled from the spec: what a call does to the collaborators' state; a call to
  any other function leaves it as it is.\<close>

fun on_call :: "listener \<Rightarrow> call \<Rightarrow> abort + listener" where
  "on_call l (Iomgr (Tcp_server_ref t)) = Inr (grpc_tcp_server_ref l)"
| "on_call l (Iomgr (Tcp_server_unref t)) = grpc_tcp_server_unref l"
| "on_call l (Grpc (Handshake_manager_do_handshake hm tcp a d acc cb cst)) =
     Inr (grpc_handshake_manager_do_handshake l hm)"
| "on_call l c = Inr l"

text \<open>Modelled from the spec: the calls of one operation take effect in program order,
  each recorded before it acts (so that what the shutdown-complete closure calls follows
  the \<open>grpc_tcp_server_unref\<close> it runs in).\<close>

fun perform :: "listener \<Rightarrow> call list \<Rightarrow> abort + listener" where
  "perform l [] = Inr l"
| "perform l (c # cs) =
     (case on_call (l\<lparr>calls := calls l @ [c]\<rparr>) c of
        Inl a \<Rightarrow> Inl a
      | Inr l' \<Rightarrow> perform l' cs)"

text \<open>Modelled from the spec: a handshake whose completion callback runs is no longer in
  flight; a listener the server destroys is marked so.\<close>

fun begin_op :: "listener \<Rightarrow> listener_op \<Rightarrow> listener" where
  "begin_op l (Handshake_done hargs error) =
     l\<lparr>in_flight := remove1 (handshake_mgr (user_data hargs)) (in_flight l)\<rparr>"
| "begin_op l (Destroy_listener destroy_done) = l\<lparr>destroyed := True\<rparr>"
| "begin_op l op = l"

text \<open>Modelled from the spec: one operation on the listener: the operation of the file
  on the listener state (every state change of an operation precedes the calls that
  matter to the collaborators), then the effect of its calls.\<close>

definition step :: "listener \<Rightarrow> listener_op \<Rightarrow> abort + listener" where
  "step l op =
     (case lstate l of
        None \<Rightarrow> Inr l
      | Some state \<Rightarrow>
          (case apply_op state op of
             (state', cs) \<Rightarrow> perform (begin_op (l\<lparr>lstate := Some state'\<rparr>) op) cs))"

text \<open>
  Modelled from the spec: when an operation can occur. No operation reaches a listener
  whose state is freed. The server starts a listener only before it destroys it, and
  destroys it once. A manager \<open>grpc_handshake_manager_create\<close> returns is none of those in
  flight. The completion callback runs for a handshake in flight (exactly once, as
  \<open>begin_op\<close> takes it out).
\<close>

fun can_occur :: "listener \<Rightarrow> listener_op \<Rightarrow> bool" where
  "can_occur l Start_listener = (lstate l \<noteq> None \<and> \<not> destroyed l)"
| "can_occur l (Accept tcp pollset acc hm now) = (lstate l \<noteq> None \<and> hm \<notin> set (in_flight l))"
| "can_occur l (Handshake_done hargs error) =
     (lstate l \<noteq> None \<and> handshake_mgr (user_data hargs) \<in> set (in_flight l))"
| "can_occur l (Destroy_listener destroy_done) = (lstate l \<noteq> None \<and> \<not> destroyed l)"

text \<open>Modelled from the spec: a sequence of operations, and whether each of them can
  occur when its turn comes.\<close>

fun run :: "listener \<Rightarrow> listener_op list \<Rightarrow> abort + listener" where
  "run l [] = Inr l"
| "run l (op # ops) = (case step l op of Inl a \<Rightarrow> Inl a | Inr l' \<Rightarrow> run l' ops)"

fun admissible :: "listener \<Rightarrow> listener_op list \<Rightarrow> bool" where
  "admissible l [] = True"
| "admissible l (op # ops) =
     (can_occur l op \<and> (case step l op of Inl a \<Rightarrow> True | Inr l' \<Rightarrow> admissible l' ops))"

text \<open>
  Modelled from the spec: the handshake manager (its source is not at hand) runs the
  callback given to \<open>grpc_handshake_manager_do_handshake\<close> with the handshake's own result
  when the handshake concludes by the deadline, and with a timeout failure when the
  deadline passes first. \<open>concluded\<close> is when and how the handshake would conclude by
  itself (\<open>None\<close>: never); \<open>timeout_error\<close> is the error object the manager makes.
\<close>

definition handshake_manager_result ::
  "grpc_error \<Rightarrow> gpr_timespec \<Rightarrow> (gpr_timespec \<times> grpc_error option) option
     \<Rightarrow> grpc_error option" where
  "handshake_manager_result timeout_error deadline concluded =
     (case concluded of
        None \<Rightarrow> Some timeout_error
      | Some (t, result) \<Rightarrow>
          if time_nanos t \<le> time_nanos deadline then result else Some timeout_error)"

text \<open>
  Vocabulary for the listener's properties: the managers a call list signals to shut
  down, the registry nodes it frees, the connectors and credentials it releases, the
  handshakes it starts, the calls that leave the collaborators' state alone, and the
  invariant of a listener whose registered state was \<open>state0\<close>.
\<close>

fun shutdown_signals :: "call list \<Rightarrow> grpc_handshake_manager list" where
  "shutdown_signals [] = []"
| "shutdown_signals (Grpc (Handshake_manager_shutdown hm) # cs) = hm # shutdown_signals cs"
| "shutdown_signals (c # cs) = shutdown_signals cs"

fun freed_nodes :: "call list \<Rightarrow> grpc_handshake_manager list" where
  "freed_nodes [] = []"
| "freed_nodes (Gpr (Free_node hm) # cs) = hm # freed_nodes cs"
| "freed_nodes (c # cs) = freed_nodes cs"

fun connector_unrefs :: "call list \<Rightarrow> grpc_server_security_connector list" where
  "connector_unrefs [] = []"
| "connector_unrefs (Grpc (Security_connector_unref s) # cs) = s # connector_unrefs cs"
| "connector_unrefs (c # cs) = connector_unrefs cs"

fun credentials_unrefs :: "call list \<Rightarrow> grpc_server_credentials list" where
  "credentials_unrefs [] = []"
| "credentials_unrefs (Grpc (Server_credentials_unref cr) # cs) = cr # credentials_unrefs cs"
| "credentials_unrefs (c # cs) = credentials_unrefs cs"

fun inert :: "call \<Rightarrow> bool" where
  "inert (Iomgr (Tcp_server_ref t)) = False"
| "inert (Iomgr (Tcp_server_unref t)) = False"
| "inert (Grpc (Handshake_manager_do_handshake hm tcp a d acc cb cst)) = False"
| "inert c = True"

definition listener_inv :: "server_secure_state \<Rightarrow> listener \<Rightarrow> bool" where
  "listener_inv state0 l =
     (connector_unrefs (calls l) = replicate (completions l) (sc state0) \<and>
      credentials_unrefs (calls l) = replicate (completions l) (creds state0) \<and>
      (case lstate l of
         Some state \<Rightarrow>
           sc state = sc state0 \<and> creds state = creds state0 \<and>
           tcp_refs l = (if destroyed l then 0 else 1) + length (in_flight l) \<and>
           0 < tcp_refs l \<and>
           pending_handshake_mgrs state = in_flight l \<and> distinct (in_flight l) \<and>
           (destroyed l \<longrightarrow> shutdown state) \<and> completions l = 0
       | None \<Rightarrow>
           destroyed l \<and> in_flight l = [] \<and> tcp_refs l = 0 \<and> completions l = 1))"

fun handshakes_started ::
  "call list \<Rightarrow> (grpc_handshake_manager \<times> grpc_endpoint \<times> gpr_timespec \<times> callback
     \<times> server_secure_connection_state) list" where
  "handshakes_started [] = []"
| "handshakes_started (Grpc (Handshake_manager_do_handshake hm tcp a deadline acc cb cst) # cs) =
     (hm, tcp, deadline, cb, cst) # handshakes_started cs"
| "handshakes_started (c # cs) = handshakes_started cs"

text \<open>
  Vocabulary for the binder's properties: what \<open>grpc_tcp_server_add_port\<close> answers for
  each resolved address in turn, the ports of the successful bindings, the errors of the
  failed ones, the entry of \<open>errors\<close> an answer leaves, the entries of an error list
  other than \<open>GRPC_ERROR_NONE\<close>, and the warnings a call list logs.
\<close>

fun port_outcomes ::
  "(nat \<Rightarrow> grpc_resolved_address \<Rightarrow> grpc_error + int) \<Rightarrow> nat \<Rightarrow> grpc_resolved_address list
     \<Rightarrow> (grpc_error + int) list" where
  "port_outcomes add_port i [] = []"
| "port_outcomes add_port i (a # addrs) = add_port i a # port_outcomes add_port (i + 1) addrs"

fun bound_ports :: "(grpc_error + int) list \<Rightarrow> int list" where
  "bound_ports [] = []"
| "bound_ports (Inl e # rs) = bound_ports rs"
| "bound_ports (Inr p # rs) = p # bound_ports rs"

fun bind_failures :: "(grpc_error + int) list \<Rightarrow> grpc_error list" where
  "bind_failures [] = []"
| "bind_failures (Inl e # rs) = e # bind_failures rs"
| "bind_failures (Inr p # rs) = bind_failures rs"

fun error_of :: "grpc_error + int \<Rightarrow> grpc_error option" where
  "error_of (Inl e) = Some e"
| "error_of (Inr p) = GRPC_ERROR_NONE"

fun referenced_errors :: "grpc_error option list \<Rightarrow> grpc_error list" where
  "referenced_errors [] = []"
| "referenced_errors (None # es) = referenced_errors es"
| "referenced_errors (Some e # es) = e # referenced_errors es"

fun logged_warnings :: "call list \<Rightarrow> grpc_error list" where
  "logged_warnings [] = []"
| "logged_warnings (Gpr (Log_info_warning e) # cs) = e # logged_warnings cs"
| "logged_warnings (c # cs) = logged_warnings cs"

subsection \<open>Concrete listeners\<close>

text \<open>A listener as \<open>grpc_server_add_secure_http2_port\<close> leaves it, with three handshakes
  pending, and the same listener once started.\<close>

definition bound_listener :: server_secure_state where
  "bound_listener =
     \<lparr>server = 1, tcp_server = 2, sc = 3,
      creds = \<lparr>creds_ptr = 4, creds_type = ''Ssl''\<rparr>,
      shutdown = True, server_destroy_listener_done = None,
      pending_handshake_mgrs = [12, 11, 10]\<rparr>"

definition active_listener :: server_secure_state where
  "active_listener = bound_listener\<lparr>shutdown := False\<rparr>"

definition monotonic_now :: gpr_timespec where
  "monotonic_now = \<lparr>tv_sec = 1000, tv_nsec = 999999999, clock_type = GPR_CLOCK_MONOTONIC\<rparr>"

definition handshaker_args_11 :: grpc_handshaker_args where
  "handshaker_args_11 =
     \<lparr>endpoint = 7, args = Channel_args 8, read_buffer = 9,
      user_data = \<lparr>accepting_pollset = 5, acceptor = 6, handshake_mgr = 11\<rparr>\<rparr>"

definition handshaker_args_12 :: grpc_handshaker_args where
  "handshaker_args_12 =
     \<lparr>endpoint = 8, args = Channel_args 8, read_buffer = 9,
      user_data = \<lparr>accepting_pollset = 5, acceptor = 6, handshake_mgr = 12\<rparr>\<rparr>"

definition two_in_flight_at_shutdown :: "listener_op list" where
  "two_in_flight_at_shutdown =
     [Start_listener, Accept 7 5 6 11 monotonic_now, Accept 8 5 6 12 monotonic_now,
      Destroy_listener (Some 30),
      Handshake_done handshaker_args_11 (Some (Collaborator_error 1)),
      Handshake_done handshaker_args_12 (Some (Collaborator_error 1))]"

text \<open>Collaborators that give a connector, three resolved addresses and a TCP server,
  and answer the binding of each address as \<open>add_port\<close> says.\<close>

definition ssl_creds :: grpc_server_credentials where
  "ssl_creds = \<lparr>creds_ptr = 4, creds_type = ''Ssl''\<rparr>"

definition example_env ::
  "(nat \<Rightarrow> grpc_resolved_address \<Rightarrow> grpc_error + int) \<Rightarrow> bind_env" where
  "example_env add_port =
     \<lparr>create_security_connector = (\<lambda>cr. Some 3),
      blocking_resolve_address = (\<lambda>addr scheme. Inr [20, 21, 22]),
      tcp_server_create = (\<lambda>ca. Inr 2),
      tcp_server_add_port = add_port\<rparr>"

definition all_bind :: "nat \<Rightarrow> grpc_resolved_address \<Rightarrow> grpc_error + int" where
  "all_bind i a = Inr 50051"

definition second_fails :: "nat \<Rightarrow> grpc_resolved_address \<Rightarrow> grpc_error + int" where
  "second_fails i a = (if i = 1 then Inl (Collaborator_error 98) else Inr 50051)"

definition second_differs :: "nat \<Rightarrow> grpc_resolved_address \<Rightarrow> grpc_error + int" where
  "second_differs i a = (if i = 1 then Inr 50052 else Inr 50051)"

subsection \<open>The registry loops\<close>

lemma remove_loop_remove1: "fst (remove_loop xs hm) = remove1 hm xs"
  by (induction xs) (auto split: prod.splits)

lemma remove_loop_absent: "hm \<notin> set xs \<Longrightarrow> remove_loop xs hm = (xs, [])"
  by (induction xs) auto

lemma remove_loop_first:
  "hm \<notin> set ys \<Longrightarrow> remove_loop (ys @ hm # zs) hm = (ys @ zs, [Gpr (Free_node hm)])"
  by (induction ys) auto

lemma remove_loop_calls:
  "snd (remove_loop xs hm) = (if hm \<in> set xs then [Gpr (Free_node hm)] else [])"
  by (induction xs) (auto split: prod.splits)

lemma remove_loop_eq:
  "remove_loop xs hm = (remove1 hm xs, if hm \<in> set xs then [Gpr (Free_node hm)] else [])"
  using remove_loop_remove1 [of xs hm] remove_loop_calls [of xs hm]
  by (cases "remove_loop xs hm") simp

lemma remove_loop_twice:
  "distinct xs \<Longrightarrow> remove_loop (fst (remove_loop xs hm)) hm = (fst (remove_loop xs hm), [])"
  by (rule remove_loop_absent) (simp add: remove_loop_remove1)

text \<open>
  C8. \<open>pending_handshake_manager_remove_locked\<close> leaves the state as it is and frees
  nothing when no node holds the manager; otherwise it unlinks and frees the first node
  holding it and keeps every other node, in order. In a registry without duplicates a
  second removal of the same manager is therefore a no-op.
\<close>

theorem remove_locked_first_match:
  "(hm \<notin> set (pending_handshake_mgrs state) \<longrightarrow>
      pending_handshake_manager_remove_locked state hm = (state, [])) \<and>
   (\<forall>ys zs. pending_handshake_mgrs state = ys @ hm # zs \<and> hm \<notin> set ys \<longrightarrow>
      pending_handshake_manager_remove_locked state hm =
        (state\<lparr>pending_handshake_mgrs := ys @ zs\<rparr>, [Gpr (Free_node hm)])) \<and>
   (distinct (pending_handshake_mgrs state) \<longrightarrow>
      pending_handshake_manager_remove_locked
        (fst (pending_handshake_manager_remove_locked state hm)) hm =
        (fst (pending_handshake_manager_remove_locked state hm), []))"
proof (intro conjI allI impI)
  assume "hm \<notin> set (pending_handshake_mgrs state)"
  then show "pending_handshake_manager_remove_locked state hm = (state, [])"
    by (simp add: pending_handshake_manager_remove_locked_def remove_loop_absent)
next
  fix ys zs
  assume "pending_handshake_mgrs state = ys @ hm # zs \<and> hm \<notin> set ys"
  then show "pending_handshake_manager_remove_locked state hm =
      (state\<lparr>pending_handshake_mgrs := ys @ zs\<rparr>, [Gpr (Free_node hm)])"
    by (simp add: pending_handshake_manager_remove_locked_def remove_loop_first)
next
  assume d: "distinct (pending_handshake_mgrs state)"
  obtain rest cs where r: "remove_loop (pending_handshake_mgrs state) hm = (rest, cs)"
    by (cases "remove_loop (pending_handshake_mgrs state) hm")
  from remove_loop_twice [OF d, of hm] r have "remove_loop rest hm = (rest, [])"
    by simp
  with r show "pending_handshake_manager_remove_locked
        (fst (pending_handshake_manager_remove_locked state hm)) hm =
        (fst (pending_handshake_manager_remove_locked state hm), [])"
    by (simp add: pending_handshake_manager_remove_locked_def)
qed

theorem remove_locked_first_match_witness:
  "pending_handshake_manager_remove_locked bound_listener 99 = (bound_listener, []) \<and>
   pending_handshake_manager_remove_locked bound_listener 11 =
     (bound_listener\<lparr>pending_handshake_mgrs := [12, 10]\<rparr>, [Gpr (Free_node 11)]) \<and>
   pending_handshake_manager_remove_locked
     (bound_listener\<lparr>pending_handshake_mgrs := [12, 10]\<rparr>) 11 =
     (bound_listener\<lparr>pending_handshake_mgrs := [12, 10]\<rparr>, [])"
proof -
  have a: "99 \<notin> set (pending_handshake_mgrs bound_listener)"
    by (simp add: bound_listener_def)
  have b: "pending_handshake_mgrs bound_listener = [12] @ 11 # [10] \<and> 11 \<notin> set [12::nat]"
    by (simp add: bound_listener_def)
  have c: "distinct (pending_handshake_mgrs bound_listener)"
    by (simp add: bound_listener_def)
  from remove_locked_first_match [of 99 bound_listener] a
  have 1: "pending_handshake_manager_remove_locked bound_listener 99 = (bound_listener, [])"
    by blast
  from remove_locked_first_match [of 11 bound_listener] b
  have 2: "pending_handshake_manager_remove_locked bound_listener 11 =
     (bound_listener\<lparr>pending_handshake_mgrs := [12] @ [10]\<rparr>, [Gpr (Free_node 11)])"
    by blast
  from remove_locked_first_match [of 11 bound_listener] c
  have 3: "pending_handshake_manager_remove_locked
        (fst (pending_handshake_manager_remove_locked bound_listener 11)) 11 =
        (fst (pending_handshake_manager_remove_locked bound_listener 11), [])"
    by blast
  from 1 2 3 show ?thesis by simp
qed

subsection \<open>Properties of the accept path\<close>

text \<open>
  C1. Whenever \<open>on_accept\<close> finds \<open>shutdown\<close> set under the mutex, it leaves every field
  of the listener state, the pending-handshake list included, as it was, and the only
  calls it makes are locking and unlocking the mutex and destroying the raw endpoint:
  no handshake manager is created and no handshake is started.
\<close>

theorem on_accept_shutdown_rejects:
  "shutdown state \<Longrightarrow>
     on_accept state tcp pollset acc hm now =
       (state, [Gpr Mu_lock, Gpr Mu_unlock, Iomgr (Endpoint_destroy tcp)])"
  by (simp add: on_accept_def)

theorem on_accept_shutdown_rejects_witness:
  "shutdown bound_listener \<and>
   on_accept bound_listener 7 5 6 13 monotonic_now =
     (bound_listener, [Gpr Mu_lock, Gpr Mu_unlock, Iomgr (Endpoint_destroy 7)])"
proof -
  have h: "shutdown bound_listener"
    by (simp add: bound_listener_def)
  from on_accept_shutdown_rejects [OF h] h show ?thesis
    by simp
qed

subsection \<open>Properties of the completion callback\<close>

text \<open>
  C4. Whatever error \<open>on_handshake_done\<close> is called with (none, a handshake failure, or
  the failure a shutdown provokes) and whether or not the listener is shut down, it
  changes nothing of the listener state but the registry, from which it removes the first
  entry of its handshake manager (so that the manager is gone from a registry without
  duplicates); it destroys the handshake manager exactly once, releases exactly one
  reference on the TCP server, frees the connection state exactly once, and does all this
  in that order after unlocking the mutex, at the end of the call.
\<close>

theorem on_handshake_done_cleanup:
  "case on_handshake_done state hargs error of (state', cs) \<Rightarrow>
     state' = state\<lparr>pending_handshake_mgrs :=
                remove1 (handshake_mgr (user_data hargs)) (pending_handshake_mgrs state)\<rparr> \<and>
     (distinct (pending_handshake_mgrs state) \<longrightarrow>
        handshake_mgr (user_data hargs) \<notin> set (pending_handshake_mgrs state')) \<and>
     count_list cs (Grpc (Handshake_manager_destroy (handshake_mgr (user_data hargs)))) = 1 \<and>
     count_list cs (Iomgr (Tcp_server_unref (tcp_server state))) = 1 \<and>
     count_list cs (Gpr (Free_connection_state (user_data hargs))) = 1 \<and>
     suffix [Gpr Mu_unlock,
             Grpc (Handshake_manager_destroy (handshake_mgr (user_data hargs))),
             Iomgr (Tcp_server_unref (tcp_server state)),
             Gpr (Free_connection_state (user_data hargs)),
             Grpc (Channel_args_destroy (args hargs))] cs"
  by (auto simp: on_handshake_done_def on_handshake_done_branch_def Let_def
      pending_handshake_manager_remove_locked_def remove_loop_eq suffix_def)

theorem on_handshake_done_cleanup_witness:
  "distinct (pending_handshake_mgrs active_listener) \<and>
   fst (on_handshake_done active_listener handshaker_args_11 (Some (Collaborator_error 1))) =
     active_listener\<lparr>pending_handshake_mgrs := [12, 10]\<rparr> \<and>
   11 \<notin> set (pending_handshake_mgrs
     (fst (on_handshake_done active_listener handshaker_args_11 (Some (Collaborator_error 1)))))"
proof -
  have d: "distinct (pending_handshake_mgrs active_listener)"
    by (simp add: active_listener_def bound_listener_def)
  have p: "remove1 (handshake_mgr (user_data handshaker_args_11))
      (pending_handshake_mgrs active_listener) = [12, 10]"
    by (simp add: active_listener_def bound_listener_def handshaker_args_11_def)
  have h: "handshake_mgr (user_data handshaker_args_11) = 11"
    by (simp add: handshaker_args_11_def)
  from on_handshake_done_cleanup
    [where state = active_listener and hargs = handshaker_args_11
       and error = "Some (Collaborator_error 1)"] d p h
  show ?thesis
    by (simp split: prod.splits)
qed

subsection \<open>Properties of the port binder\<close>

text \<open>
  C6. Called without credentials, \<open>grpc_server_add_secure_http2_port\<close> returns port 0
  and registers no listener, whatever its collaborators would answer; besides tracing the
  call and finishing its execution context it only releases and logs, at error level,
  the error "No credentials specified for secure server port (creds==NULL)". It creates
  no security connector, resolves no address, allocates no listener state and creates no
  TCP server.
\<close>

theorem bind_without_credentials:
  "grpc_server_add_secure_http2_port env srv addr None =
     Inr (0, None,
       [Grpc Api_trace, Iomgr Exec_ctx_finish,
        Iomgr (Error_unref (Some (GRPC_ERROR_CREATE
          ''No credentials specified for secure server port (creds==NULL)''))),
        Gpr (Log_error (GRPC_ERROR_CREATE
          ''No credentials specified for secure server port (creds==NULL)''))])"
  by (simp add: grpc_server_add_secure_http2_port_def bind_error_def after_calls_def)

subsection \<open>The loop over the resolved addresses\<close>

lemma length_port_outcomes [simp]: "length (port_outcomes f i addrs) = length addrs"
  by (induction addrs arbitrary: i) auto

lemma length_bound_failures:
  "length (bound_ports rs) + length (bind_failures rs) = length rs"
  by (induction rs rule: bound_ports.induct) auto

lemma add_port_loop_agree:
  "\<forall>q \<in> set (bound_ports (port_outcomes f i addrs)). q = p \<Longrightarrow>
   port_num = - 1 \<or> port_num = p \<Longrightarrow>
   add_port_loop f tcp i addrs port_num count errors cs =
     Inr (if bound_ports (port_outcomes f i addrs) = [] then port_num else p,
          count + length (bound_ports (port_outcomes f i addrs)),
          errors @ map error_of (port_outcomes f i addrs),
          cs @ map (\<lambda>a. Iomgr (Tcp_server_add_port tcp a)) addrs)"
proof (induction addrs arbitrary: i port_num count errors cs)
  case Nil
  then show ?case by simp
next
  case (Cons a addrs)
  show ?case
  proof (cases "f i a")
    case (Inl e)
    with Cons.prems Cons.IH [of "i + 1" port_num count "errors @ [Some e]"]
    show ?thesis by (simp add: Let_def)
  next
    case (Inr port_temp)
    with Cons.prems have pt: "port_temp = p" by simp
    from Cons.prems Inr have rest: "\<forall>q \<in> set (bound_ports (port_outcomes f (i + 1) addrs)). q = p"
      by simp
    show ?thesis
    proof (cases "port_num = - 1")
      case True
      with Inr pt Cons.IH [OF rest, of p "count + 1" "errors @ [None]"]
      show ?thesis by (simp add: Let_def)
    next
      case False
      with Cons.prems have "port_num = p" by simp
      with False Inr pt Cons.IH [OF rest, of p "count + 1" "errors @ [None]"]
      show ?thesis by (simp add: Let_def)
    qed
  qed
qed

lemma add_port_loop_disagree:
  "\<forall>q \<in> set (bound_ports (port_outcomes f i addrs)). q \<noteq> - 1 \<Longrightarrow>
   port_num \<noteq> - 1 \<Longrightarrow>
   \<exists>q \<in> set (bound_ports (port_outcomes f i addrs)). q \<noteq> port_num \<Longrightarrow>
   add_port_loop f tcp i addrs port_num count errors cs =
     Inl (GPR_ASSERT_failed ''port_num == port_temp'')"
proof (induction addrs arbitrary: i count errors cs)
  case Nil
  then show ?case by simp
next
  case (Cons a addrs)
  show ?case
  proof (cases "f i a")
    case (Inl e)
    with Cons.prems Cons.IH [of "i + 1"] show ?thesis by (simp add: Let_def)
  next
    case (Inr port_temp)
    show ?thesis
    proof (cases "port_num = port_temp")
      case True
      with Inr Cons.prems Cons.IH [of "i + 1"] show ?thesis by (simp add: Let_def)
    next
      case False
      with Inr Cons.prems show ?thesis by (simp add: Let_def)
    qed
  qed
qed

lemma add_port_loop_disagree_start:
  "\<forall>q \<in> set (bound_ports (port_outcomes f i addrs)). q \<noteq> - 1 \<Longrightarrow>
   \<exists>x \<in> set (bound_ports (port_outcomes f i addrs)).
     \<exists>y \<in> set (bound_ports (port_outcomes f i addrs)). x \<noteq> y \<Longrightarrow>
   add_port_loop f tcp i addrs (- 1) count errors cs =
     Inl (GPR_ASSERT_failed ''port_num == port_temp'')"
proof (induction addrs arbitrary: i count errors cs)
  case Nil
  then show ?case by simp
next
  case (Cons a addrs)
  show ?case
  proof (cases "f i a")
    case (Inl e)
    with Cons.prems Cons.IH [of "i + 1"] show ?thesis by (simp add: Let_def)
  next
    case (Inr port_temp)
    with Cons.prems have v: "port_temp \<noteq> - 1"
      and r: "\<forall>q \<in> set (bound_ports (port_outcomes f (i + 1) addrs)). q \<noteq> - 1"
      by simp_all
    from Cons.prems(2) Inr
    have "\<exists>q \<in> set (bound_ports (port_outcomes f (i + 1) addrs)). q \<noteq> port_temp"
      by auto
    from add_port_loop_disagree [OF r v this] Inr show ?thesis
      by (simp add: Let_def)
  qed
qed

lemma logged_warnings_append:
  "logged_warnings (xs @ ys) = logged_warnings xs @ logged_warnings ys"
  by (induction xs rule: logged_warnings.induct) auto

lemma logged_warnings_add_port [simp]:
  "logged_warnings (map (\<lambda>a. Iomgr (Tcp_server_add_port tcp a)) addrs) = []"
  by (induction addrs) auto

lemma logged_warnings_error_unref [simp]:
  "logged_warnings (map (\<lambda>x. Iomgr (Error_unref x)) es) = []"
  by (induction es) auto

lemma logged_warnings_replicate [simp]: "logged_warnings (replicate n (Iomgr c)) = []"
  by (induction n) auto

lemma count_error_unref_add_port [simp]:
  "count_list (map (\<lambda>a. Iomgr (Tcp_server_add_port tcp a)) addrs) (Iomgr (Error_unref x)) = 0"
  by (induction addrs) auto

lemma count_error_unref_none:
  "bind_failures rs = [] \<Longrightarrow>
   count_list (map (\<lambda>x. Iomgr (Error_unref x)) (map error_of rs)) (Iomgr (Error_unref None))
     = length rs"
  by (induction rs rule: bind_failures.induct) auto

lemma no_bound_ports: "bound_ports rs = [] \<Longrightarrow> map error_of rs = map Some (bind_failures rs)"
  by (induction rs rule: bound_ports.induct) auto

lemma failures_of_errors: "referenced_errors (map error_of rs) = bind_failures rs"
  by (induction rs rule: bound_ports.induct) auto

lemma no_failures_markers:
  "bind_failures rs = [] \<Longrightarrow> map error_of rs = replicate (length rs) None"
  by (induction rs rule: bind_failures.induct) auto

lemma after_calls_after_calls: "after_calls xs (after_calls ys r) = after_calls (xs @ ys) r"
  by (auto simp: after_calls_def split: sum.splits)

lemma add_secure_http2_port_reaches_bind_ports:
  "create_security_connector env cr = Some s \<Longrightarrow>
   blocking_resolve_address env addr ''https'' = Inr resolved \<Longrightarrow>
   tcp_server_create env (Server_get_channel_args srv) = Inr tcp \<Longrightarrow>
   grpc_server_add_secure_http2_port env srv addr (Some cr) =
     after_calls
       [Grpc Api_trace, Grpc (Server_credentials_create_security_connector cr),
        Iomgr (Blocking_resolve_address addr ''https''),
        Gpr Malloc_state, Iomgr Closure_init, Iomgr Tcp_server_create]
       (bind_ports env srv cr s resolved tcp)"
  by (simp add: grpc_server_add_secure_http2_port_def after_calls_after_calls)

lemma bind_ports_agree:
  assumes "\<forall>q \<in> set (bound_ports (port_outcomes (tcp_server_add_port env) 0 resolved)). q = p"
  shows "bind_ports env srv cr s resolved tcp =
     (let rs = port_outcomes (tcp_server_add_port env) 0 resolved;
          errors = map error_of rs;
          cs = [Grpc (Server_credentials_ref cr), Gpr Mu_init,
                Gpr (Malloc_errors (length resolved))]
               @ map (\<lambda>a. Iomgr (Tcp_server_add_port tcp a)) resolved
      in if bound_ports rs = [] then
           Inr (0, None,
             cs @ map (\<lambda>x. Iomgr (Error_unref x)) errors @
             [Gpr Free_errors, Iomgr Resolved_addresses_destroy, Iomgr (Tcp_server_unref tcp),
              Iomgr Exec_ctx_finish,
              Iomgr (Error_unref (Some (GRPC_ERROR_CREATE_REFERENCING
                (''No address added out of total '' @ decimal (length resolved) @ '' resolved'')
                errors))),
              Gpr (Log_error (GRPC_ERROR_CREATE_REFERENCING
                (''No address added out of total '' @ decimal (length resolved) @ '' resolved'')
                errors))])
         else if length (bound_ports rs) \<noteq> length resolved then
           Inr (p, Some (fresh_state srv tcp s cr),
             cs @
             [Gpr (Log_info_warning (GRPC_ERROR_CREATE_REFERENCING
                (''Only '' @ decimal (length (bound_ports rs))
                   @ '' addresses added out of total '' @ decimal (length resolved)
                   @ '' resolved'')
                errors)),
              Gpr Free_errors, Iomgr Resolved_addresses_destroy,
              Grpc (Server_add_listener srv), Iomgr Exec_ctx_finish])
         else
           Inr (p, Some (fresh_state srv tcp s cr),
             cs @ map (\<lambda>x. Iomgr (Error_unref x)) errors @
             [Gpr Free_errors, Iomgr Resolved_addresses_destroy,
              Grpc (Server_add_listener srv), Iomgr Exec_ctx_finish]))"
  unfolding bind_ports_def
  by (simp add: add_port_loop_agree [OF assms, of "- 1"] Let_def bind_error_def
      after_calls_def fresh_state_def)

lemma decimal_2: "decimal (Suc (Suc 0)) = ''2''"
  by (simp add: decimal.simps digit_char_def)

lemma decimal_3: "decimal (Suc (Suc (Suc 0))) = ''3''"
  by (simp add: decimal.simps digit_char_def)

text \<open>
  C5. Let the credentials give a connector, the address resolve to \<open>N\<close> addresses and the
  TCP server be created, and let every successful binding report the port \<open>p\<close>; let \<open>k\<close>
  be the number of successful bindings. The call never aborts. If \<open>k = 0\<close> it returns 0,
  registers no listener and logs, at error level, the error "No address added out of
  total N resolved" that references the \<open>N\<close> per-address errors. If \<open>0 < k < N\<close> it returns
  \<open>p\<close>, registers the listener, and logs exactly one warning, "Only k addresses added out
  of total N resolved", whose referenced errors are the \<open>N - k\<close> failures. If \<open>k = N\<close> it
  returns \<open>p\<close>, registers the listener, logs no warning, and releases the \<open>N\<close> entries of
  \<open>errors\<close>, all of them \<open>GRPC_ERROR_NONE\<close>.
\<close>

theorem bind_partial_failure_policy:
  assumes sc_ok: "create_security_connector env cr = Some s"
    and resolved: "blocking_resolve_address env addr ''https'' = Inr resolved"
    and tcp_ok: "tcp_server_create env (Server_get_channel_args srv) = Inr tcp"
    and rs: "rs = port_outcomes (tcp_server_add_port env) 0 resolved"
    and shared: "\<forall>q \<in> set (bound_ports rs). q = p"
  shows "case grpc_server_add_secure_http2_port env srv addr (Some cr) of
           Inl a \<Rightarrow> False
         | Inr (port, st, cs) \<Rightarrow>
             (if length (bound_ports rs) = 0 then
                port = 0 \<and> st = None \<and>
                Gpr (Log_error (GRPC_ERROR_CREATE_REFERENCING
                  (''No address added out of total '' @ decimal (length resolved)
                     @ '' resolved'')
                  (map Some (bind_failures rs)))) \<in> set cs \<and>
                length (bind_failures rs) = length resolved \<and>
                Grpc (Server_add_listener srv) \<notin> set cs
              else if length (bound_ports rs) < length resolved then
                port = p \<and> st = Some (fresh_state srv tcp s cr) \<and>
                logged_warnings cs =
                  [GRPC_ERROR_CREATE_REFERENCING
                     (''Only '' @ decimal (length (bound_ports rs))
                        @ '' addresses added out of total '' @ decimal (length resolved)
                        @ '' resolved'')
                     (map error_of rs)] \<and>
                referenced_errors (map error_of rs) = bind_failures rs \<and>
                length (bind_failures rs) = length resolved - length (bound_ports rs) \<and>
                Grpc (Server_add_listener srv) \<in> set cs
              else
                port = p \<and> st = Some (fresh_state srv tcp s cr) \<and>
                logged_warnings cs = [] \<and>
                map error_of rs = replicate (length resolved) GRPC_ERROR_NONE \<and>
                count_list cs (Iomgr (Error_unref GRPC_ERROR_NONE)) = length resolved \<and>
                Grpc (Server_add_listener srv) \<in> set cs)"
proof -
  from shared rs
  have agree: "\<forall>q \<in> set (bound_ports (port_outcomes (tcp_server_add_port env) 0 resolved)). q = p"
    by simp
  have len: "length (bound_ports rs) + length (bind_failures rs) = length resolved"
    using length_bound_failures [of rs] rs by simp
  note start = add_secure_http2_port_reaches_bind_ports [OF sc_ok resolved tcp_ok]
  note ports = bind_ports_agree [OF agree, of srv cr s tcp]
  show ?thesis
  proof (cases "bound_ports rs = []")
    case True
    with len have "length (bind_failures rs) = length resolved" by simp
    with True rs show ?thesis
      by (auto simp: start ports after_calls_def Let_def no_bound_ports)
  next
    case False
    note some = this
    show ?thesis
    proof (cases "length (bound_ports rs) < length resolved")
      case True
      with some len rs show ?thesis
        by (auto simp: start ports after_calls_def Let_def logged_warnings_append
            failures_of_errors)
    next
      case False
      with len have all: "length (bound_ports rs) = length resolved"
        by simp
      with len have "length (bind_failures rs) = 0"
        by simp
      then have none: "bind_failures rs = []"
        by simp
      from no_failures_markers [OF none] rs
      have markers: "map error_of rs = replicate (length resolved) None"
        by simp
      from some all rs markers count_error_unref_none [OF none] show ?thesis
        by (auto simp: start ports after_calls_def Let_def logged_warnings_append)
    qed
  qed
qed

theorem bind_partial_failure_policy_witness:
  "(case grpc_server_add_secure_http2_port (example_env second_fails) 9 ''[::]:50051''
          (Some ssl_creds) of
      Inl a \<Rightarrow> False
    | Inr (port, st, cs) \<Rightarrow>
        port = 50051 \<and> st = Some (fresh_state 9 2 3 ssl_creds) \<and>
        logged_warnings cs =
          [GRPC_ERROR_CREATE_REFERENCING ''Only 2 addresses added out of total 3 resolved''
             [None, Some (Collaborator_error 98), None]]) \<and>
   (case grpc_server_add_secure_http2_port (example_env all_bind) 9 ''[::]:50051''
          (Some ssl_creds) of
      Inl a \<Rightarrow> False
    | Inr (port, st, cs) \<Rightarrow>
        port = 50051 \<and> st = Some (fresh_state 9 2 3 ssl_creds) \<and> logged_warnings cs = [] \<and>
        count_list cs (Iomgr (Error_unref GRPC_ERROR_NONE)) = 3) \<and>
   (case grpc_server_add_secure_http2_port
          (example_env (\<lambda>i a. Inl (Collaborator_error (98 + i)))) 9 ''[::]:50051''
          (Some ssl_creds) of
      Inl a \<Rightarrow> False
    | Inr (port, st, cs) \<Rightarrow>
        port = 0 \<and> st = None \<and>
        Gpr (Log_error (GRPC_ERROR_CREATE_REFERENCING
          ''No address added out of total 3 resolved''
          [Some (Collaborator_error 98), Some (Collaborator_error 99),
           Some (Collaborator_error 100)])) \<in> set cs)"
proof -
  have sc_ok: "create_security_connector (example_env f) ssl_creds = Some 3" for f
    by (simp add: example_env_def)
  have res: "blocking_resolve_address (example_env f) ''[::]:50051'' ''https''
      = Inr [20, 21, 22]" for f
    by (simp add: example_env_def)
  have tcp_ok: "tcp_server_create (example_env f) (Server_get_channel_args 9) = Inr 2" for f
    by (simp add: example_env_def)
  have rs1: "[Inr 50051, Inl (Collaborator_error 98), Inr 50051] =
      port_outcomes (tcp_server_add_port (example_env second_fails)) 0 [20, 21, 22]"
    by (simp add: example_env_def second_fails_def)
  have rs2: "[Inr 50051, Inr 50051, Inr 50051] =
      port_outcomes (tcp_server_add_port (example_env all_bind)) 0 [20, 21, 22]"
    by (simp add: example_env_def all_bind_def)
  have rs3: "[Inl (Collaborator_error 98), Inl (Collaborator_error 99),
       Inl (Collaborator_error 100)] =
      port_outcomes (tcp_server_add_port
        (example_env (\<lambda>i a. Inl (Collaborator_error (98 + i))))) 0 [20, 21, 22]"
    by (simp add: example_env_def)
  have sh1: "\<forall>q \<in> set (bound_ports [Inr 50051, Inl (Collaborator_error 98), Inr 50051]).
      q = 50051"
    by simp
  have sh2: "\<forall>q \<in> set (bound_ports [Inr 50051, Inr 50051, Inr 50051]). q = 50051"
    by simp
  have sh3: "\<forall>q \<in> set (bound_ports [Inl (Collaborator_error 98), Inl (Collaborator_error 99),
       Inl (Collaborator_error 100)]). q = 0"
    by simp
  from bind_partial_failure_policy [OF sc_ok res tcp_ok rs1 sh1]
  have 1: "case grpc_server_add_secure_http2_port (example_env second_fails) 9 ''[::]:50051''
          (Some ssl_creds) of
      Inl a \<Rightarrow> False
    | Inr (port, st, cs) \<Rightarrow>
        port = 50051 \<and> st = Some (fresh_state 9 2 3 ssl_creds) \<and>
        logged_warnings cs =
          [GRPC_ERROR_CREATE_REFERENCING ''Only 2 addresses added out of total 3 resolved''
             [None, Some (Collaborator_error 98), None]]"
    by (simp add: decimal_2 decimal_3 split: sum.splits prod.splits)
  from bind_partial_failure_policy [OF sc_ok res tcp_ok rs2 sh2]
  have 2: "case grpc_server_add_secure_http2_port (example_env all_bind) 9 ''[::]:50051''
          (Some ssl_creds) of
      Inl a \<Rightarrow> False
    | Inr (port, st, cs) \<Rightarrow>
        port = 50051 \<and> st = Some (fresh_state 9 2 3 ssl_creds) \<and> logged_warnings cs = [] \<and>
        count_list cs (Iomgr (Error_unref GRPC_ERROR_NONE)) = 3"
    by (simp split: sum.splits prod.splits)
  from bind_partial_failure_policy [OF sc_ok res tcp_ok rs3 sh3]
  have 3: "case grpc_server_add_secure_http2_port
          (example_env (\<lambda>i a. Inl (Collaborator_error (98 + i)))) 9 ''[::]:50051''
          (Some ssl_creds) of
      Inl a \<Rightarrow> False
    | Inr (port, st, cs) \<Rightarrow>
        port = 0 \<and> st = None \<and>
        Gpr (Log_error (GRPC_ERROR_CREATE_REFERENCING
          ''No address added out of total 3 resolved''
          [Some (Collaborator_error 98), Some (Collaborator_error 99),
           Some (Collaborator_error 100)])) \<in> set cs"
    by (simp add: decimal_3 split: sum.splits prod.splits)
  from 1 2 3 show ?thesis by (intro conjI)
qed

text \<open>
  C7. Let the credentials give a connector, the address resolve and the TCP server be
  created, and let the successful bindings report port numbers (none negative; \<open>-1\<close> is
  what \<open>port_num\<close> holds before the first success). Then the call aborts on
  \<open>GPR_ASSERT(port_num == port_temp)\<close> exactly when two successful bindings report
  different ports: it never returns a port then, and the assertion never fires when
  all successful bindings report the same port.
\<close>

theorem bind_port_disagreement_asserts:
  assumes sc_ok: "create_security_connector env cr = Some s"
    and resolved: "blocking_resolve_address env addr ''https'' = Inr resolved"
    and tcp_ok: "tcp_server_create env (Server_get_channel_args srv) = Inr tcp"
    and rs: "rs = port_outcomes (tcp_server_add_port env) 0 resolved"
    and valid: "\<forall>q \<in> set (bound_ports rs). 0 \<le> q"
  shows "(grpc_server_add_secure_http2_port env srv addr (Some cr) =
            Inl (GPR_ASSERT_failed ''port_num == port_temp'')) =
         (\<exists>x \<in> set (bound_ports rs). \<exists>y \<in> set (bound_ports rs). x \<noteq> y)"
proof (cases "\<exists>x \<in> set (bound_ports rs). \<exists>y \<in> set (bound_ports rs). x \<noteq> y")
  case True
  from valid rs
  have v: "\<forall>q \<in> set (bound_ports (port_outcomes (tcp_server_add_port env) 0 resolved)). q \<noteq> - 1"
    by auto
  from True rs
  have d: "\<exists>x \<in> set (bound_ports (port_outcomes (tcp_server_add_port env) 0 resolved)).
     \<exists>y \<in> set (bound_ports (port_outcomes (tcp_server_add_port env) 0 resolved)). x \<noteq> y"
    by simp
  have "bind_ports env srv cr s resolved tcp = Inl (GPR_ASSERT_failed ''port_num == port_temp'')"
    by (simp add: bind_ports_def add_port_loop_disagree_start [OF v d])
  with True show ?thesis
    by (simp add: add_secure_http2_port_reaches_bind_ports [OF sc_ok resolved tcp_ok]
        after_calls_def)
next
  case False
  obtain p where p: "\<forall>q \<in> set (bound_ports rs). q = p"
    using False by (cases "bound_ports rs") auto
  with rs
  have agree: "\<forall>q \<in> set (bound_ports (port_outcomes (tcp_server_add_port env) 0 resolved)). q = p"
    by simp
  have "\<exists>r. bind_ports env srv cr s resolved tcp = Inr r"
    by (simp add: bind_ports_agree [OF agree] Let_def)
  then obtain r where "bind_ports env srv cr s resolved tcp = Inr r" ..
  with False show ?thesis
    by (simp add: add_secure_http2_port_reaches_bind_ports [OF sc_ok resolved tcp_ok]
        after_calls_def split: prod.splits)
qed

theorem bind_port_disagreement_asserts_witness:
  "grpc_server_add_secure_http2_port (example_env second_differs) 9 ''[::]:50051''
     (Some ssl_creds) = Inl (GPR_ASSERT_failed ''port_num == port_temp'') \<and>
   grpc_server_add_secure_http2_port (example_env all_bind) 9 ''[::]:50051''
     (Some ssl_creds) \<noteq> Inl (GPR_ASSERT_failed ''port_num == port_temp'')"
proof -
  have sc_ok: "create_security_connector (example_env f) ssl_creds = Some 3" for f
    by (simp add: example_env_def)
  have res: "blocking_resolve_address (example_env f) ''[::]:50051'' ''https''
      = Inr [20, 21, 22]" for f
    by (simp add: example_env_def)
  have tcp_ok: "tcp_server_create (example_env f) (Server_get_channel_args 9) = Inr 2" for f
    by (simp add: example_env_def)
  have rs1: "[Inr 50051, Inr 50052, Inr 50051] =
      port_outcomes (tcp_server_add_port (example_env second_differs)) 0 [20, 21, 22]"
    by (simp add: example_env_def second_differs_def)
  have rs2: "[Inr 50051, Inr 50051, Inr 50051] =
      port_outcomes (tcp_server_add_port (example_env all_bind)) 0 [20, 21, 22]"
    by (simp add: example_env_def all_bind_def)
  have v1: "\<forall>q \<in> set (bound_ports [Inr 50051, Inr 50052, Inr 50051]). 0 \<le> q"
    by simp
  have v2: "\<forall>q \<in> set (bound_ports [Inr 50051, Inr 50051, Inr 50051]). 0 \<le> q"
    by simp
  have d1: "\<exists>x \<in> set (bound_ports [Inr 50051, Inr 50052, Inr 50051]).
      \<exists>y \<in> set (bound_ports [Inr 50051, Inr 50052, Inr 50051]). x \<noteq> y"
    by force
  have d2: "\<not> (\<exists>x \<in> set (bound_ports [Inr 50051, Inr 50051, Inr 50051]).
      \<exists>y \<in> set (bound_ports [Inr 50051, Inr 50051, Inr 50051]). x \<noteq> y)"
    by simp
  from bind_port_disagreement_asserts [OF sc_ok res tcp_ok rs1 v1] d1
  have 1: "grpc_server_add_secure_http2_port (example_env second_differs) 9 ''[::]:50051''
     (Some ssl_creds) = Inl (GPR_ASSERT_failed ''port_num == port_temp'')"
    by blast
  from bind_port_disagreement_asserts [OF sc_ok res tcp_ok rs2 v2] d2
  have 2: "grpc_server_add_secure_http2_port (example_env all_bind) 9 ''[::]:50051''
     (Some ssl_creds) \<noteq> Inl (GPR_ASSERT_failed ''port_num == port_temp'')"
    by blast
  from 1 2 show ?thesis by (intro conjI)
qed

text \<open>
  The hypothesis on the ports excludes only the value the loop itself cannot tell from "no
  port yet": were a first successful binding to report \<open>-1\<close>, the next successful
  binding would not be compared with it.
\<close>

lemma first_port_minus_one_not_compared:
  "add_port_loop (\<lambda>i a. if i = 0 then Inr (- 1) else Inr 50051) 2 0 [20, 21] (- 1) 0 [] [] =
     Inr (50051, 2, [GRPC_ERROR_NONE, GRPC_ERROR_NONE],
          [Iomgr (Tcp_server_add_port 2 20), Iomgr (Tcp_server_add_port 2 21)])"
  by (simp add: Let_def)

lemma bound_state_shutdown:
  "grpc_server_add_secure_http2_port env srv addr creds_opt = Inr (port, Some state, cs) \<Longrightarrow>
   shutdown state \<and> pending_handshake_mgrs state = []"
  by (auto simp: grpc_server_add_secure_http2_port_def bind_ports_def bind_error_def
      after_calls_def fresh_state_def Let_def
      split: option.splits sum.splits prod.splits if_splits)

subsection \<open>The shutdown flag\<close>

lemma apply_op_keeps_shutdown:
  "shutdown state \<Longrightarrow> op \<noteq> Start_listener \<Longrightarrow> shutdown (fst (apply_op state op))"
  by (cases op)
    (auto simp: on_accept_def on_handshake_done_def server_destroy_listener_def
      pending_handshake_manager_remove_locked_def Let_def split: prod.splits)

lemma apply_op_shutdown_keeps_pending:
  "shutdown state \<Longrightarrow> pending_handshake_mgrs state = [] \<Longrightarrow> op \<noteq> Start_listener \<Longrightarrow>
   pending_handshake_mgrs (fst (apply_op state op)) = []"
  by (cases op)
    (auto simp: on_accept_def on_handshake_done_def server_destroy_listener_def
      pending_handshake_manager_remove_locked_def Let_def split: prod.splits)

lemma fst_run_ops_Cons:
  "fst (run_ops state (op # ops)) = fst (run_ops (fst (apply_op state op)) ops)"
  by (simp split: prod.splits)

lemma run_ops_keeps_shutdown:
  "shutdown state \<Longrightarrow> Start_listener \<notin> set ops \<Longrightarrow> shutdown (fst (run_ops state ops))"
proof (induction ops arbitrary: state)
  case Nil
  then show ?case by simp
next
  case (Cons op ops)
  from Cons.prems have "op \<noteq> Start_listener"
    by auto
  with Cons.prems have "shutdown (fst (apply_op state op))"
    by (simp add: apply_op_keeps_shutdown)
  with Cons.IH [of "fst (apply_op state op)"] Cons.prems show ?case
    by (simp add: fst_run_ops_Cons del: run_ops.simps)
qed

lemma run_ops_shutdown_keeps_pending:
  "shutdown state \<Longrightarrow> pending_handshake_mgrs state = [] \<Longrightarrow> Start_listener \<notin> set ops \<Longrightarrow>
   pending_handshake_mgrs (fst (run_ops state ops)) = []"
proof (induction ops arbitrary: state)
  case Nil
  then show ?case by simp
next
  case (Cons op ops)
  from Cons.prems have "op \<noteq> Start_listener"
    by auto
  with Cons.prems have "shutdown (fst (apply_op state op))"
    and "pending_handshake_mgrs (fst (apply_op state op)) = []"
    by (simp_all add: apply_op_keeps_shutdown apply_op_shutdown_keeps_pending)
  with Cons.IH [of "fst (apply_op state op)"] Cons.prems show ?case
    by (simp add: fst_run_ops_Cons del: run_ops.simps)
qed

lemma shutdown_complete_keeps_shutdown:
  "tcp_server_shutdown_complete state error = Inr (state', cs) \<Longrightarrow> shutdown state'"
  by (auto simp: tcp_server_shutdown_complete_def pending_handshake_manager_shutdown_locked_def
      Let_def split: if_splits)

lemma example_bind_all:
  "grpc_server_add_secure_http2_port (example_env all_bind) 9 ''[::]:50051'' (Some ssl_creds) =
     Inr (50051, Some (fresh_state 9 2 3 ssl_creds),
       [Grpc Api_trace, Grpc (Server_credentials_create_security_connector ssl_creds),
        Iomgr (Blocking_resolve_address ''[::]:50051'' ''https''),
        Gpr Malloc_state, Iomgr Closure_init, Iomgr Tcp_server_create,
        Grpc (Server_credentials_ref ssl_creds), Gpr Mu_init, Gpr (Malloc_errors 3),
        Iomgr (Tcp_server_add_port 2 20), Iomgr (Tcp_server_add_port 2 21),
        Iomgr (Tcp_server_add_port 2 22),
        Iomgr (Error_unref GRPC_ERROR_NONE), Iomgr (Error_unref GRPC_ERROR_NONE),
        Iomgr (Error_unref GRPC_ERROR_NONE),
        Gpr Free_errors, Iomgr Resolved_addresses_destroy,
        Grpc (Server_add_listener 9), Iomgr Exec_ctx_finish])"
  by (simp add: grpc_server_add_secure_http2_port_def bind_ports_def example_env_def
      all_bind_def after_calls_def Let_def)

text \<open>
  C3, as the code has it. A listener state is created with \<open>shutdown\<close> set, and
  \<open>server_start_listener\<close> clears it: the binding below returns such a state, and starting
  it leaves the flag false.
\<close>

theorem shutdown_flag_cleared_by_start:
  "grpc_server_add_secure_http2_port (example_env all_bind) 9 ''[::]:50051'' (Some ssl_creds) =
     Inr (50051, Some (fresh_state 9 2 3 ssl_creds),
       [Grpc Api_trace, Grpc (Server_credentials_create_security_connector ssl_creds),
        Iomgr (Blocking_resolve_address ''[::]:50051'' ''https''),
        Gpr Malloc_state, Iomgr Closure_init, Iomgr Tcp_server_create,
        Grpc (Server_credentials_ref ssl_creds), Gpr Mu_init, Gpr (Malloc_errors 3),
        Iomgr (Tcp_server_add_port 2 20), Iomgr (Tcp_server_add_port 2 21),
        Iomgr (Tcp_server_add_port 2 22),
        Iomgr (Error_unref GRPC_ERROR_NONE), Iomgr (Error_unref GRPC_ERROR_NONE),
        Iomgr (Error_unref GRPC_ERROR_NONE),
        Gpr Free_errors, Iomgr Resolved_addresses_destroy,
        Grpc (Server_add_listener 9), Iomgr Exec_ctx_finish]) \<and>
   shutdown (fresh_state 9 2 3 ssl_creds) \<and>
   \<not> shutdown (fst (run_ops (fresh_state 9 2 3 ssl_creds) [Start_listener]))"
  by (simp add: example_bind_all) (simp add: fresh_state_def server_start_listener_def)

text \<open>
  C3, amended. Once \<open>shutdown\<close> is set, every sequence of operations other than
  \<open>server_start_listener\<close> (accepting connections, completing handshakes, destroying the
  listener) leaves it set, and so does \<open>tcp_server_shutdown_complete\<close>;
  \<open>server_start_listener\<close> is the one operation that clears it.
\<close>

theorem shutdown_flag_stays_set:
  "(shutdown state \<and> Start_listener \<notin> set ops \<longrightarrow> shutdown (fst (run_ops state ops))) \<and>
   (tcp_server_shutdown_complete state error = Inr (state', cs) \<longrightarrow> shutdown state') \<and>
   \<not> shutdown (fst (run_ops state [Start_listener]))"
  using run_ops_keeps_shutdown [of state ops]
    shutdown_complete_keeps_shutdown [of state error state' cs]
  by (simp add: server_start_listener_def)

theorem shutdown_flag_stays_set_witness:
  "shutdown bound_listener \<and>
   Start_listener \<notin> set [Accept 7 5 6 13 monotonic_now, Destroy_listener (Some 30),
     Handshake_done handshaker_args_11 GRPC_ERROR_NONE] \<and>
   shutdown (fst (run_ops bound_listener
     [Accept 7 5 6 13 monotonic_now, Destroy_listener (Some 30),
      Handshake_done handshaker_args_11 GRPC_ERROR_NONE])) \<and>
   tcp_server_shutdown_complete bound_listener GRPC_ERROR_NONE =
     Inr (bound_listener\<lparr>pending_handshake_mgrs := []\<rparr>,
       [Gpr Mu_lock,
        Grpc (Handshake_manager_shutdown 12),
        Grpc (Handshake_manager_shutdown 11), Gpr (Free_node 12),
        Grpc (Handshake_manager_shutdown 10), Gpr (Free_node 11), Gpr (Free_node 10),
        Gpr Mu_unlock, Iomgr Exec_ctx_flush,
        Grpc (Security_connector_unref 3),
        Grpc (Server_credentials_unref \<lparr>creds_ptr = 4, creds_type = ''Ssl''\<rparr>),
        Gpr Mu_destroy, Gpr Free_state]) \<and>
   shutdown (bound_listener\<lparr>pending_handshake_mgrs := []\<rparr>)"
proof -
  let ?ops = "[Accept 7 5 6 13 monotonic_now, Destroy_listener (Some 30),
     Handshake_done handshaker_args_11 GRPC_ERROR_NONE]"
  let ?cs = "[Gpr Mu_lock,
        Grpc (Handshake_manager_shutdown 12),
        Grpc (Handshake_manager_shutdown 11), Gpr (Free_node 12),
        Grpc (Handshake_manager_shutdown 10), Gpr (Free_node 11), Gpr (Free_node 10),
        Gpr Mu_unlock, Iomgr Exec_ctx_flush,
        Grpc (Security_connector_unref 3),
        Grpc (Server_credentials_unref \<lparr>creds_ptr = 4, creds_type = ''Ssl''\<rparr>),
        Gpr Mu_destroy, Gpr Free_state]"
  have h: "shutdown bound_listener"
    by (simp add: bound_listener_def)
  have n: "Start_listener \<notin> set ?ops"
    by simp
  have c: "tcp_server_shutdown_complete bound_listener GRPC_ERROR_NONE =
      Inr (bound_listener\<lparr>pending_handshake_mgrs := []\<rparr>, ?cs)"
    by (simp add: tcp_server_shutdown_complete_def bound_listener_def
        pending_handshake_manager_shutdown_locked_def)
  from shutdown_flag_stays_set
    [where state = bound_listener and ops = ?ops and error = GRPC_ERROR_NONE
       and state' = "bound_listener\<lparr>pending_handshake_mgrs := []\<rparr>" and cs = ?cs]
    h n c
  show ?thesis by blast
qed

text \<open>
  C10. The state a successful \<open>grpc_server_add_secure_http2_port\<close> registers has
  \<open>shutdown\<close> set and no pending handshake. After any operations other than
  \<open>server_start_listener\<close> the flag is still set and the registry still empty, and
  \<open>on_accept\<close> rejects a connection exactly as during shutdown: the state is left as it
  is and the only calls are the lock, the unlock and the destruction of the endpoint.
  Running \<open>server_start_listener\<close> then clears the flag.
\<close>

theorem bound_listener_rejects_until_started:
  assumes bound:
      "grpc_server_add_secure_http2_port env srv addr creds_opt = Inr (port, Some state, cs)"
    and not_started: "Start_listener \<notin> set ops"
    and before: "state' = fst (run_ops state ops)"
  shows "shutdown state \<and> pending_handshake_mgrs state = [] \<and>
         shutdown state' \<and> pending_handshake_mgrs state' = [] \<and>
         on_accept state' tcp pollset acc hm now =
           (state', [Gpr Mu_lock, Gpr Mu_unlock, Iomgr (Endpoint_destroy tcp)]) \<and>
         \<not> shutdown (fst (server_start_listener state'))"
proof -
  from bound_state_shutdown [OF bound]
  have s: "shutdown state" and p: "pending_handshake_mgrs state = []"
    by simp_all
  from run_ops_keeps_shutdown [OF s not_started] before
  have s': "shutdown state'" by simp
  from run_ops_shutdown_keeps_pending [OF s p not_started] before
  have p': "pending_handshake_mgrs state' = []" by simp
  from s p s' p' show ?thesis
    by (simp add: on_accept_def server_start_listener_def)
qed

theorem bound_listener_rejects_until_started_witness:
  "grpc_server_add_secure_http2_port (example_env all_bind) 9 ''[::]:50051'' (Some ssl_creds) =
     Inr (50051, Some (fresh_state 9 2 3 ssl_creds),
       [Grpc Api_trace, Grpc (Server_credentials_create_security_connector ssl_creds),
        Iomgr (Blocking_resolve_address ''[::]:50051'' ''https''),
        Gpr Malloc_state, Iomgr Closure_init, Iomgr Tcp_server_create,
        Grpc (Server_credentials_ref ssl_creds), Gpr Mu_init, Gpr (Malloc_errors 3),
        Iomgr (Tcp_server_add_port 2 20), Iomgr (Tcp_server_add_port 2 21),
        Iomgr (Tcp_server_add_port 2 22),
        Iomgr (Error_unref GRPC_ERROR_NONE), Iomgr (Error_unref GRPC_ERROR_NONE),
        Iomgr (Error_unref GRPC_ERROR_NONE),
        Gpr Free_errors, Iomgr Resolved_addresses_destroy,
        Grpc (Server_add_listener 9), Iomgr Exec_ctx_finish]) \<and>
   fresh_state 9 2 3 ssl_creds =
     fst (run_ops (fresh_state 9 2 3 ssl_creds) [Accept 8 5 6 14 monotonic_now]) \<and>
   on_accept (fresh_state 9 2 3 ssl_creds) 7 5 6 13 monotonic_now =
     (fresh_state 9 2 3 ssl_creds, [Gpr Mu_lock, Gpr Mu_unlock, Iomgr (Endpoint_destroy 7)]) \<and>
   \<not> shutdown (fst (server_start_listener (fresh_state 9 2 3 ssl_creds)))"
proof -
  have n: "Start_listener \<notin> set [Accept 8 5 6 14 monotonic_now]"
    by simp
  have b: "fresh_state 9 2 3 ssl_creds =
      fst (run_ops (fresh_state 9 2 3 ssl_creds) [Accept 8 5 6 14 monotonic_now])"
    by (simp add: on_accept_def fresh_state_def)
  from bound_listener_rejects_until_started [OF example_bind_all n b, of 7 5 6 13 monotonic_now]
    example_bind_all b
  show ?thesis by simp
qed

subsection \<open>The life of a listener\<close>

lemma shutdown_signals_append [simp]:
  "shutdown_signals (xs @ ys) = shutdown_signals xs @ shutdown_signals ys"
  by (induction xs rule: shutdown_signals.induct) auto

lemma freed_nodes_append [simp]: "freed_nodes (xs @ ys) = freed_nodes xs @ freed_nodes ys"
  by (induction xs rule: freed_nodes.induct) auto

lemma connector_unrefs_append [simp]:
  "connector_unrefs (xs @ ys) = connector_unrefs xs @ connector_unrefs ys"
  by (induction xs rule: connector_unrefs.induct) auto

lemma credentials_unrefs_append [simp]:
  "credentials_unrefs (xs @ ys) = credentials_unrefs xs @ credentials_unrefs ys"
  by (induction xs rule: credentials_unrefs.induct) auto

lemma free_prev_node_calls [simp]:
  "shutdown_signals (gpr_free_prev_node prev) = []"
  "connector_unrefs (gpr_free_prev_node prev) = []"
  "credentials_unrefs (gpr_free_prev_node prev) = []"
  "freed_nodes (gpr_free_prev_node prev) = (case prev of None \<Rightarrow> [] | Some node \<Rightarrow> [node])"
  by (cases prev; simp)+

lemma shutdown_loop_signals: "shutdown_signals (shutdown_loop prev xs) = xs"
  by (induction xs arbitrary: prev) auto

lemma shutdown_loop_frees:
  "freed_nodes (shutdown_loop prev xs) = (case prev of None \<Rightarrow> [] | Some node \<Rightarrow> [node]) @ xs"
  by (induction xs arbitrary: prev) auto

lemma shutdown_loop_no_unrefs [simp]:
  "connector_unrefs (shutdown_loop prev xs) = []"
  "credentials_unrefs (shutdown_loop prev xs) = []"
  by (induction xs arbitrary: prev) auto

lemma shutdown_complete_result:
  "shutdown state \<Longrightarrow>
   \<exists>cs. tcp_server_shutdown_complete state error =
           Inr (state\<lparr>pending_handshake_mgrs := []\<rparr>, cs) \<and>
        shutdown_signals cs = pending_handshake_mgrs state \<and>
        freed_nodes cs = pending_handshake_mgrs state \<and>
        connector_unrefs cs = [sc state] \<and>
        credentials_unrefs cs = [creds state]"
  by (cases "server_destroy_listener_done state")
    (simp_all add: tcp_server_shutdown_complete_def
      pending_handshake_manager_shutdown_locked_def shutdown_loop_signals shutdown_loop_frees)

lemma perform_append:
  "perform l (xs @ ys) = (case perform l xs of Inl a \<Rightarrow> Inl a | Inr l' \<Rightarrow> perform l' ys)"
  by (induction xs arbitrary: l) (auto split: sum.splits)

lemma on_call_inert: "inert c \<Longrightarrow> on_call l c = Inr l"
  by (induction c rule: inert.induct) auto

lemma perform_inert:
  "\<forall>c \<in> set cs. inert c \<Longrightarrow> perform l cs = Inr (l\<lparr>calls := calls l @ cs\<rparr>)"
  by (induction cs arbitrary: l) (auto simp: on_call_inert)

lemma remove_loop_inert: "\<forall>c \<in> set (snd (remove_loop xs hm)). inert c"
  by (simp add: remove_loop_eq)

lemma branch_inert: "\<forall>c \<in> set (on_handshake_done_branch state hargs error). inert c"
  by (simp add: on_handshake_done_branch_def Let_def)

lemma remove_loop_no_unrefs [simp]:
  "connector_unrefs (snd (remove_loop xs hm)) = []"
  "credentials_unrefs (snd (remove_loop xs hm)) = []"
  by (simp_all add: remove_loop_eq)

lemma branch_no_unrefs [simp]:
  "connector_unrefs (on_handshake_done_branch state hargs error) = []"
  "credentials_unrefs (on_handshake_done_branch state hargs error) = []"
  by (simp_all add: on_handshake_done_branch_def Let_def)

lemma unref_not_last:
  "tcp_refs l \<noteq> 1 \<Longrightarrow> grpc_tcp_server_unref l = Inr (l\<lparr>tcp_refs := tcp_refs l - 1\<rparr>)"
  by (simp add: grpc_tcp_server_unref_def)

lemma unref_last:
  "tcp_refs l = 1 \<Longrightarrow> lstate l = Some state \<Longrightarrow> shutdown state \<Longrightarrow>
   \<exists>cs. grpc_tcp_server_unref l =
           Inr (l\<lparr>lstate := None, tcp_refs := 0, completions := completions l + 1,
                  calls := calls l @ cs\<rparr>) \<and>
        connector_unrefs cs = [sc state] \<and> credentials_unrefs cs = [creds state]"
  using shutdown_complete_result [of state "tcp_shutdown_error l"]
  by (auto simp: grpc_tcp_server_unref_def)

lemma step_start_eq:
  "lstate l = Some state \<Longrightarrow>
   step l Start_listener =
     Inr (l\<lparr>lstate := Some (state\<lparr>shutdown := False\<rparr>),
            calls := calls l @
              [Gpr Mu_lock, Gpr Mu_unlock, Iomgr (Tcp_server_start (tcp_server state))]\<rparr>)"
  by (simp add: step_def server_start_listener_def)

lemma step_accept_shutdown_eq:
  "lstate l = Some state \<Longrightarrow> shutdown state \<Longrightarrow>
   step l (Accept tcp pollset acc hm now) =
     Inr (l\<lparr>lstate := Some state,
            calls := calls l @ [Gpr Mu_lock, Gpr Mu_unlock, Iomgr (Endpoint_destroy tcp)]\<rparr>)"
  by (simp add: step_def on_accept_def)

lemma step_accept_active_eq:
  "lstate l = Some state \<Longrightarrow> \<not> shutdown state \<Longrightarrow>
   step l (Accept tcp pollset acc hm now) =
     Inr (l\<lparr>lstate := Some (state\<lparr>pending_handshake_mgrs := hm # pending_handshake_mgrs state\<rparr>),
            tcp_refs := tcp_refs l + 1,
            in_flight := hm # in_flight l,
            calls := calls l @ snd (on_accept state tcp pollset acc hm now)\<rparr>)"
  by (simp add: step_def on_accept_def Let_def pending_handshake_manager_add_locked_def
      grpc_tcp_server_ref_def grpc_handshake_manager_do_handshake_def)

lemma step_destroy_eq:
  "lstate l = Some state \<Longrightarrow>
   step l (Destroy_listener destroy_done) =
     grpc_tcp_server_unref
       (l\<lparr>lstate := Some (state\<lparr>shutdown := True,
                                server_destroy_listener_done := destroy_done\<rparr>),
          destroyed := True,
          calls := calls l @
            [Gpr Mu_lock, Gpr Mu_unlock,
             Iomgr (Tcp_server_shutdown_listeners (tcp_server state)),
             Iomgr (Tcp_server_unref (tcp_server state))]\<rparr>)"
  by (simp add: step_def server_destroy_listener_def Let_def split: sum.splits)

lemma step_done_eq:
  "lstate l = Some state \<Longrightarrow>
   step l (Handshake_done hargs error) =
     (case grpc_tcp_server_unref
         (l\<lparr>lstate := Some (state\<lparr>pending_handshake_mgrs :=
                    remove1 (handshake_mgr (user_data hargs)) (pending_handshake_mgrs state)\<rparr>),
            in_flight := remove1 (handshake_mgr (user_data hargs)) (in_flight l),
            calls := calls l @
              (on_handshake_done_branch state hargs error @
               snd (remove_loop (pending_handshake_mgrs state) (handshake_mgr (user_data hargs))))
              @ [Gpr Mu_unlock,
                 Grpc (Handshake_manager_destroy (handshake_mgr (user_data hargs))),
                 Iomgr (Tcp_server_unref (tcp_server state))]\<rparr>) of
        Inl a \<Rightarrow> Inl a
      | Inr l' \<Rightarrow>
          Inr (l'\<lparr>calls := calls l' @
                 [Gpr (Free_connection_state (user_data hargs)),
                  Grpc (Channel_args_destroy (args hargs))]\<rparr>))"
proof -
  let ?hm = "handshake_mgr (user_data hargs)"
  let ?pre = "on_handshake_done_branch state hargs error @
    snd (remove_loop (pending_handshake_mgrs state) ?hm)"
  have inert: "\<forall>c \<in> set ?pre. inert c"
    using branch_inert [of state hargs error]
      remove_loop_inert [of "pending_handshake_mgrs state" ?hm]
    by auto
  have cb: "on_handshake_done state hargs error =
      (state\<lparr>pending_handshake_mgrs := remove1 ?hm (pending_handshake_mgrs state)\<rparr>,
       ?pre @
       [Gpr Mu_unlock, Grpc (Handshake_manager_destroy ?hm),
        Iomgr (Tcp_server_unref (tcp_server state)),
        Gpr (Free_connection_state (user_data hargs)),
        Grpc (Channel_args_destroy (args hargs))])"
    by (simp add: on_handshake_done_def Let_def pending_handshake_manager_remove_locked_def
        remove_loop_eq)
  let ?l0 = "l\<lparr>lstate := Some (state\<lparr>pending_handshake_mgrs :=
      remove1 ?hm (pending_handshake_mgrs state)\<rparr>), in_flight := remove1 ?hm (in_flight l)\<rparr>"
  let ?tail = "[Gpr Mu_unlock, Grpc (Handshake_manager_destroy ?hm),
        Iomgr (Tcp_server_unref (tcp_server state)),
        Gpr (Free_connection_state (user_data hargs)),
        Grpc (Channel_args_destroy (args hargs))]"
  have p1: "perform ?l0 (?pre @ ?tail) = perform (?l0\<lparr>calls := calls ?l0 @ ?pre\<rparr>) ?tail"
    using perform_append [of ?l0 ?pre ?tail] perform_inert [OF inert, of ?l0]
    by simp
  have p2: "perform (?l0\<lparr>calls := calls ?l0 @ ?pre\<rparr>) ?tail =
     (case grpc_tcp_server_unref
         (?l0\<lparr>calls := calls l @ ?pre @ [Gpr Mu_unlock, Grpc (Handshake_manager_destroy ?hm),
            Iomgr (Tcp_server_unref (tcp_server state))]\<rparr>) of
        Inl a \<Rightarrow> Inl a
      | Inr l' \<Rightarrow>
          Inr (l'\<lparr>calls := calls l' @
                 [Gpr (Free_connection_state (user_data hargs)),
                  Grpc (Channel_args_destroy (args hargs))]\<rparr>))"
    by (simp split: sum.splits)
  assume "lstate l = Some state"
  then have "step l (Handshake_done hargs error) = perform ?l0 (?pre @ ?tail)"
    by (simp add: step_def cb)
  with p1 p2 show ?thesis
    by simp
qed

lemma can_occur_live: "can_occur l op \<Longrightarrow> \<exists>state. lstate l = Some state"
  by (cases op) auto

lemma inv_live:
  assumes "listener_inv state0 l" and "lstate l = Some state"
  shows "connector_unrefs (calls l) = []" and "credentials_unrefs (calls l) = []"
    and "sc state = sc state0" and "creds state = creds state0"
    and "tcp_refs l = (if destroyed l then 0 else 1) + length (in_flight l)"
    and "0 < tcp_refs l"
    and "pending_handshake_mgrs state = in_flight l" and "distinct (in_flight l)"
    and "destroyed l \<Longrightarrow> shutdown state" and "completions l = 0"
  using assms by (auto simp: listener_inv_def)

lemma inv_start:
  assumes inv: "listener_inv state0 l" and occ: "can_occur l Start_listener"
  shows "\<exists>l'. step l Start_listener = Inr l' \<and> listener_inv state0 l'"
proof -
  from can_occur_live [OF occ] obtain state where st: "lstate l = Some state" ..
  note f = inv_live [OF inv st]
  from occ have nd: "\<not> destroyed l" by simp
  from f nd have "listener_inv state0
     (l\<lparr>lstate := Some (state\<lparr>shutdown := False\<rparr>),
        calls := calls l @
          [Gpr Mu_lock, Gpr Mu_unlock, Iomgr (Tcp_server_start (tcp_server state))]\<rparr>)"
    by (simp add: listener_inv_def)
  with step_start_eq [OF st] show ?thesis by simp
qed

lemma inv_accept:
  assumes inv: "listener_inv state0 l" and occ: "can_occur l (Accept tcp pollset acc hm now)"
  shows "\<exists>l'. step l (Accept tcp pollset acc hm now) = Inr l' \<and> listener_inv state0 l'"
proof -
  from can_occur_live [OF occ] obtain state where st: "lstate l = Some state" ..
  note f = inv_live [OF inv st]
  from occ have fresh: "hm \<notin> set (in_flight l)" by simp
  show ?thesis
  proof (cases "shutdown state")
    case True
    from f have "listener_inv state0
       (l\<lparr>lstate := Some state,
          calls := calls l @ [Gpr Mu_lock, Gpr Mu_unlock, Iomgr (Endpoint_destroy tcp)]\<rparr>)"
      by (simp add: listener_inv_def)
    with step_accept_shutdown_eq [OF st True] show ?thesis by simp
  next
    case False
    with f(9) have nd: "\<not> destroyed l" by blast
    have quiet: "connector_unrefs (snd (on_accept state tcp pollset acc hm now)) = []"
      "credentials_unrefs (snd (on_accept state tcp pollset acc hm now)) = []"
      using False
      by (simp_all add: on_accept_def Let_def pending_handshake_manager_add_locked_def)
    from f nd fresh False quiet have "listener_inv state0
       (l\<lparr>lstate := Some (state\<lparr>pending_handshake_mgrs := hm # pending_handshake_mgrs state\<rparr>),
          tcp_refs := tcp_refs l + 1,
          in_flight := hm # in_flight l,
          calls := calls l @ snd (on_accept state tcp pollset acc hm now)\<rparr>)"
      by (simp add: listener_inv_def)
    with step_accept_active_eq [OF st False] show ?thesis by simp
  qed
qed

lemma inv_destroy:
  assumes inv: "listener_inv state0 l" and occ: "can_occur l (Destroy_listener destroy_done)"
  shows "\<exists>l'. step l (Destroy_listener destroy_done) = Inr l' \<and> listener_inv state0 l'"
proof -
  from can_occur_live [OF occ] obtain state where st: "lstate l = Some state" ..
  note f = inv_live [OF inv st]
  from occ have nd: "\<not> destroyed l" by simp
  let ?state = "state\<lparr>shutdown := True, server_destroy_listener_done := destroy_done\<rparr>"
  let ?l1 = "l\<lparr>lstate := Some ?state, destroyed := True,
      calls := calls l @
        [Gpr Mu_lock, Gpr Mu_unlock,
         Iomgr (Tcp_server_shutdown_listeners (tcp_server state)),
         Iomgr (Tcp_server_unref (tcp_server state))]\<rparr>"
  note eq = step_destroy_eq [OF st, of destroy_done]
  show ?thesis
  proof (cases "in_flight l = []")
    case True
    with f nd have one: "tcp_refs ?l1 = 1" by simp
    have live: "lstate ?l1 = Some ?state" by simp
    have sh: "shutdown ?state" by simp
    from unref_last [OF one live sh] obtain cs where
      u: "grpc_tcp_server_unref ?l1 =
            Inr (?l1\<lparr>lstate := None, tcp_refs := 0, completions := completions ?l1 + 1,
                    calls := calls ?l1 @ cs\<rparr>)"
      and c1: "connector_unrefs cs = [sc ?state]"
      and c2: "credentials_unrefs cs = [creds ?state]"
      by blast
    from f True c1 c2 have "listener_inv state0
        (?l1\<lparr>lstate := None, tcp_refs := 0, completions := completions ?l1 + 1,
               calls := calls ?l1 @ cs\<rparr>)"
      by (simp add: listener_inv_def)
    with eq u show ?thesis by simp
  next
    case False
    with f nd have more: "tcp_refs ?l1 \<noteq> 1" by simp
    from f nd False have "listener_inv state0 (?l1\<lparr>tcp_refs := tcp_refs ?l1 - 1\<rparr>)"
      by (simp add: listener_inv_def)
    with eq unref_not_last [OF more] show ?thesis by simp
  qed
qed

lemma step_done_last:
  assumes st: "lstate l = Some state" and one: "tcp_refs l = 1" and sh: "shutdown state"
  shows "\<exists>cs. step l (Handshake_done hargs error) =
           Inr (l\<lparr>lstate := None,
                  in_flight := remove1 (handshake_mgr (user_data hargs)) (in_flight l),
                  tcp_refs := 0, completions := completions l + 1,
                  calls := calls l @
                    (on_handshake_done_branch state hargs error @
                     snd (remove_loop (pending_handshake_mgrs state)
                       (handshake_mgr (user_data hargs)))) @
                    [Gpr Mu_unlock,
                     Grpc (Handshake_manager_destroy (handshake_mgr (user_data hargs))),
                     Iomgr (Tcp_server_unref (tcp_server state))] @ cs @
                    [Gpr (Free_connection_state (user_data hargs)),
                     Grpc (Channel_args_destroy (args hargs))]\<rparr>) \<and>
        connector_unrefs cs = [sc state] \<and> credentials_unrefs cs = [creds state]"
proof -
  let ?state = "state\<lparr>pending_handshake_mgrs :=
      remove1 (handshake_mgr (user_data hargs)) (pending_handshake_mgrs state)\<rparr>"
  from sh have sh': "shutdown ?state" by simp
  from shutdown_complete_result [OF sh', of "tcp_shutdown_error l"] obtain cs where
    c: "tcp_server_shutdown_complete ?state (tcp_shutdown_error l) =
          Inr (?state\<lparr>pending_handshake_mgrs := []\<rparr>, cs)"
    and c1: "connector_unrefs cs = [sc ?state]"
    and c2: "credentials_unrefs cs = [creds ?state]"
    by blast
  from one c have "step l (Handshake_done hargs error) =
           Inr (l\<lparr>lstate := None,
                  in_flight := remove1 (handshake_mgr (user_data hargs)) (in_flight l),
                  tcp_refs := 0, completions := completions l + 1,
                  calls := calls l @
                    (on_handshake_done_branch state hargs error @
                     snd (remove_loop (pending_handshake_mgrs state)
                       (handshake_mgr (user_data hargs)))) @
                    [Gpr Mu_unlock,
                     Grpc (Handshake_manager_destroy (handshake_mgr (user_data hargs))),
                     Iomgr (Tcp_server_unref (tcp_server state))] @ cs @
                    [Gpr (Free_connection_state (user_data hargs)),
                     Grpc (Channel_args_destroy (args hargs))]\<rparr>)"
    by (simp add: step_done_eq [OF st] grpc_tcp_server_unref_def)
  with c1 c2 show ?thesis by auto
qed

lemma step_done_more:
  assumes st: "lstate l = Some state" and more: "tcp_refs l \<noteq> 1"
  shows "step l (Handshake_done hargs error) =
           Inr (l\<lparr>lstate := Some (state\<lparr>pending_handshake_mgrs :=
                    remove1 (handshake_mgr (user_data hargs)) (pending_handshake_mgrs state)\<rparr>),
                  in_flight := remove1 (handshake_mgr (user_data hargs)) (in_flight l),
                  tcp_refs := tcp_refs l - 1,
                  calls := calls l @
                    (on_handshake_done_branch state hargs error @
                     snd (remove_loop (pending_handshake_mgrs state)
                       (handshake_mgr (user_data hargs)))) @
                    [Gpr Mu_unlock,
                     Grpc (Handshake_manager_destroy (handshake_mgr (user_data hargs))),
                     Iomgr (Tcp_server_unref (tcp_server state)),
                     Gpr (Free_connection_state (user_data hargs)),
                     Grpc (Channel_args_destroy (args hargs))]\<rparr>)"
  using more by (simp add: step_done_eq [OF st] grpc_tcp_server_unref_def)

lemma inv_done:
  assumes inv: "listener_inv state0 l" and occ: "can_occur l (Handshake_done hargs error)"
  shows "\<exists>l'. step l (Handshake_done hargs error) = Inr l' \<and> listener_inv state0 l'"
proof -
  from can_occur_live [OF occ] obtain state where st: "lstate l = Some state" ..
  note f = inv_live [OF inv st]
  let ?hm = "handshake_mgr (user_data hargs)"
  from occ have mem: "?hm \<in> set (in_flight l)" by simp
  then have len: "length (remove1 ?hm (in_flight l)) = length (in_flight l) - 1"
    by (simp add: length_remove1)
  from mem obtain n where n: "length (in_flight l) = Suc n"
    by (cases "in_flight l") auto
  show ?thesis
  proof (cases "tcp_refs l = 1")
    case True
    from trans [OF f(5) [symmetric] True]
    have "(if destroyed l then 0 else 1) + length (in_flight l) = 1" .
    with n have d: "destroyed l" and l1: "length (in_flight l) = 1"
      by (simp_all split: if_splits)
    from l1 len have empty: "remove1 ?hm (in_flight l) = []" by simp
    from step_done_last [OF st True f(9) [OF d], of hargs error] obtain cs l' where
      s: "step l (Handshake_done hargs error) = Inr l'"
      and l': "l' = l\<lparr>lstate := None, in_flight := remove1 ?hm (in_flight l),
                  tcp_refs := 0, completions := completions l + 1,
                  calls := calls l @
                    (on_handshake_done_branch state hargs error @
                     snd (remove_loop (pending_handshake_mgrs state) ?hm)) @
                    [Gpr Mu_unlock, Grpc (Handshake_manager_destroy ?hm),
                     Iomgr (Tcp_server_unref (tcp_server state))] @ cs @
                    [Gpr (Free_connection_state (user_data hargs)),
                     Grpc (Channel_args_destroy (args hargs))]\<rparr>"
      and c1: "connector_unrefs cs = [sc state]"
      and c2: "credentials_unrefs cs = [creds state]"
      by blast
    have "listener_inv state0 l'"
      unfolding listener_inv_def l'
      using f(1-4,10) d empty c1 c2 by simp
    with s show ?thesis by blast
  next
    case False
    from f(5) False n have r: "tcp_refs l - 1 =
        (if destroyed l then 0 else 1) + (length (in_flight l) - 1)"
      and r': "0 < tcp_refs l - 1"
      by (simp_all split: if_splits)
    have "listener_inv state0
       (l\<lparr>lstate := Some (state\<lparr>pending_handshake_mgrs :=
                remove1 ?hm (pending_handshake_mgrs state)\<rparr>),
          in_flight := remove1 ?hm (in_flight l),
          tcp_refs := tcp_refs l - 1,
          calls := calls l @
            (on_handshake_done_branch state hargs error @
             snd (remove_loop (pending_handshake_mgrs state) ?hm)) @
            [Gpr Mu_unlock, Grpc (Handshake_manager_destroy ?hm),
             Iomgr (Tcp_server_unref (tcp_server state)),
             Gpr (Free_connection_state (user_data hargs)),
             Grpc (Channel_args_destroy (args hargs))]\<rparr>)"
      unfolding listener_inv_def
      using f(1-4,7-10) r r' len by simp
    with step_done_more [OF st False, of hargs error] show ?thesis by simp
  qed
qed

lemma inv_step:
  assumes "listener_inv state0 l" and "can_occur l op"
  shows "\<exists>l'. step l op = Inr l' \<and> listener_inv state0 l'"
  using assms inv_start inv_accept inv_done inv_destroy
  by (cases op) blast+

lemma inv_run:
  "listener_inv state0 l \<Longrightarrow> admissible l ops \<Longrightarrow>
   \<exists>l'. run l ops = Inr l' \<and> listener_inv state0 l'"
proof (induction ops arbitrary: l)
  case Nil
  then show ?case by simp
next
  case (Cons op ops)
  from Cons.prems have occ: "can_occur l op" by simp
  from inv_step [OF Cons.prems(1) occ] obtain l1
    where s: "step l op = Inr l1" and i: "listener_inv state0 l1"
    by blast
  from Cons.prems(2) s have "admissible l1 ops" by simp
  from Cons.IH [OF i this] s show ?case by simp
qed

lemma inv_new_listener:
  "shutdown state \<Longrightarrow> pending_handshake_mgrs state = [] \<Longrightarrow>
   listener_inv state (new_listener state error)"
  by (simp add: listener_inv_def new_listener_def)

text \<open>Over the life of a listener its registry never holds a manager twice.\<close>

lemma registry_without_duplicates:
  assumes "shutdown state" and "pending_handshake_mgrs state = []"
    and "admissible (new_listener state tcp_error) ops"
    and "run (new_listener state tcp_error) ops = Inr l" and "lstate l = Some state'"
  shows "distinct (pending_handshake_mgrs state')"
proof -
  from assms(1,2) have "listener_inv state (new_listener state tcp_error)"
    by (rule inv_new_listener)
  from inv_run [OF this assms(3)] assms(4) have "listener_inv state l"
    by simp
  from inv_live(7,8) [OF this assms(5)] show ?thesis
    by simp
qed

text \<open>
  C2. Whenever \<open>tcp_server_shutdown_complete\<close> runs on a state with \<open>shutdown\<close> set (it
  asserts so), whatever the number of pending handshakes, it returns: the registry is
  empty afterwards, every entry's manager has been signalled to shut down exactly once and
  its node freed exactly once, in registry order, and the security connector and the
  credentials have each been released exactly once. Over the life of a listener, from its
  registration on and for any operations that can occur, no assertion fails, the
  completion step runs at most once, it has run exactly once precisely when the server
  has destroyed the listener and no handshake is in flight any more, the listener state
  is freed precisely then, and all calls together release the connector and the
  credentials once for each run of the completion step.
\<close>

theorem shutdown_complete_releases_once:
  assumes sh: "shutdown state"
  shows "(case tcp_server_shutdown_complete state error of
            Inl a \<Rightarrow> False
          | Inr (state', cs) \<Rightarrow>
              state' = state\<lparr>pending_handshake_mgrs := []\<rparr> \<and>
              shutdown_signals cs = pending_handshake_mgrs state \<and>
              freed_nodes cs = pending_handshake_mgrs state \<and>
              connector_unrefs cs = [sc state] \<and>
              credentials_unrefs cs = [creds state]) \<and>
         (pending_handshake_mgrs state = [] \<and> admissible (new_listener state tcp_error) ops \<longrightarrow>
            (case run (new_listener state tcp_error) ops of
               Inl a \<Rightarrow> False
             | Inr l \<Rightarrow>
                 completions l \<le> 1 \<and>
                 (completions l = 1) = (destroyed l \<and> in_flight l = []) \<and>
                 (lstate l = None) = (completions l = 1) \<and>
                 connector_unrefs (calls l) = replicate (completions l) (sc state) \<and>
                 credentials_unrefs (calls l) = replicate (completions l) (creds state)))"
proof (intro conjI impI)
  from shutdown_complete_result [OF sh, of error]
  show "case tcp_server_shutdown_complete state error of
            Inl a \<Rightarrow> False
          | Inr (state', cs) \<Rightarrow>
              state' = state\<lparr>pending_handshake_mgrs := []\<rparr> \<and>
              shutdown_signals cs = pending_handshake_mgrs state \<and>
              freed_nodes cs = pending_handshake_mgrs state \<and>
              connector_unrefs cs = [sc state] \<and>
              credentials_unrefs cs = [creds state]"
    by auto
next
  assume a: "pending_handshake_mgrs state = [] \<and> admissible (new_listener state tcp_error) ops"
  with sh have "listener_inv state (new_listener state tcp_error)"
    by (simp add: inv_new_listener)
  from inv_run [OF this] a obtain l
    where r: "run (new_listener state tcp_error) ops = Inr l" and i: "listener_inv state l"
    by blast
  have "completions l \<le> 1 \<and>
        (completions l = 1) = (destroyed l \<and> in_flight l = []) \<and>
        (lstate l = None) = (completions l = 1) \<and>
        connector_unrefs (calls l) = replicate (completions l) (sc state) \<and>
        credentials_unrefs (calls l) = replicate (completions l) (creds state)"
  proof (cases "lstate l")
    case None
    with i show ?thesis by (simp add: listener_inv_def)
  next
    case (Some s)
    note f = inv_live [OF i Some]
    from f(5,6) have "\<not> (destroyed l \<and> in_flight l = [])"
      by (auto split: if_splits)
    with i Some f(10) show ?thesis by (simp add: listener_inv_def)
  qed
  with r show "case run (new_listener state tcp_error) ops of
               Inl a \<Rightarrow> False
             | Inr l \<Rightarrow>
                 completions l \<le> 1 \<and>
                 (completions l = 1) = (destroyed l \<and> in_flight l = []) \<and>
                 (lstate l = None) = (completions l = 1) \<and>
                 connector_unrefs (calls l) = replicate (completions l) (sc state) \<and>
                 credentials_unrefs (calls l) = replicate (completions l) (creds state)"
    by simp
qed

theorem shutdown_complete_releases_once_witness:
  "shutdown bound_listener \<and>
   (case tcp_server_shutdown_complete bound_listener GRPC_ERROR_NONE of
      Inl a \<Rightarrow> False
    | Inr (state', cs) \<Rightarrow>
        pending_handshake_mgrs state' = [] \<and> shutdown_signals cs = [12, 11, 10] \<and>
        freed_nodes cs = [12, 11, 10] \<and> connector_unrefs cs = [3] \<and>
        credentials_unrefs cs = [\<lparr>creds_ptr = 4, creds_type = ''Ssl''\<rparr>]) \<and>
   shutdown (fresh_state 9 2 3 ssl_creds) \<and>
   pending_handshake_mgrs (fresh_state 9 2 3 ssl_creds) = [] \<and>
   admissible (new_listener (fresh_state 9 2 3 ssl_creds) GRPC_ERROR_NONE)
     two_in_flight_at_shutdown \<and>
   (case run (new_listener (fresh_state 9 2 3 ssl_creds) GRPC_ERROR_NONE)
           two_in_flight_at_shutdown of
      Inl a \<Rightarrow> False
    | Inr l \<Rightarrow>
        completions l \<le> 1 \<and>
        (completions l = 1) = (destroyed l \<and> in_flight l = []) \<and>
        (lstate l = None) = (completions l = 1) \<and>
        connector_unrefs (calls l) = replicate (completions l) 3 \<and>
        credentials_unrefs (calls l) = replicate (completions l) ssl_creds) \<and>
   (case run (new_listener (fresh_state 9 2 3 ssl_creds) GRPC_ERROR_NONE)
           two_in_flight_at_shutdown of
      Inl a \<Rightarrow> False
    | Inr l \<Rightarrow> completions l = 1 \<and> lstate l = None)"
proof -
  have sh1: "shutdown bound_listener"
    by (simp add: bound_listener_def)
  have sh2: "shutdown (fresh_state 9 2 3 ssl_creds)"
    and p2: "pending_handshake_mgrs (fresh_state 9 2 3 ssl_creds) = []"
    by (simp_all add: fresh_state_def)
  have adm: "admissible (new_listener (fresh_state 9 2 3 ssl_creds) GRPC_ERROR_NONE)
     two_in_flight_at_shutdown"
    by code_simp
  have fin: "case run (new_listener (fresh_state 9 2 3 ssl_creds) GRPC_ERROR_NONE)
           two_in_flight_at_shutdown of
      Inl a \<Rightarrow> False
    | Inr l \<Rightarrow> completions l = 1 \<and> lstate l = None"
    by code_simp
  from conjunct1 [OF shutdown_complete_releases_once [OF sh1, of GRPC_ERROR_NONE]]
  have 1: "case tcp_server_shutdown_complete bound_listener GRPC_ERROR_NONE of
      Inl a \<Rightarrow> False
    | Inr (state', cs) \<Rightarrow>
        pending_handshake_mgrs state' = [] \<and> shutdown_signals cs = [12, 11, 10] \<and>
        freed_nodes cs = [12, 11, 10] \<and> connector_unrefs cs = [3] \<and>
        credentials_unrefs cs = [\<lparr>creds_ptr = 4, creds_type = ''Ssl''\<rparr>]"
    by (auto simp: bound_listener_def split: sum.splits)
  have fields: "sc (fresh_state 9 2 3 ssl_creds) = 3"
    "creds (fresh_state 9 2 3 ssl_creds) = ssl_creds"
    by (simp_all add: fresh_state_def)
  from conjunct2 [OF shutdown_complete_releases_once
    [OF sh2, where tcp_error = GRPC_ERROR_NONE and ops = two_in_flight_at_shutdown]] p2 adm
  have "case run (new_listener (fresh_state 9 2 3 ssl_creds) GRPC_ERROR_NONE)
           two_in_flight_at_shutdown of
      Inl a \<Rightarrow> False
    | Inr l \<Rightarrow>
        completions l \<le> 1 \<and>
        (completions l = 1) = (destroyed l \<and> in_flight l = []) \<and>
        (lstate l = None) = (completions l = 1) \<and>
        connector_unrefs (calls l) =
          replicate (completions l) (sc (fresh_state 9 2 3 ssl_creds)) \<and>
        credentials_unrefs (calls l) =
          replicate (completions l) (creds (fresh_state 9 2 3 ssl_creds))"
    by blast
  then have 2: "case run (new_listener (fresh_state 9 2 3 ssl_creds) GRPC_ERROR_NONE)
           two_in_flight_at_shutdown of
      Inl a \<Rightarrow> False
    | Inr l \<Rightarrow>
        completions l \<le> 1 \<and>
        (completions l = 1) = (destroyed l \<and> in_flight l = []) \<and>
        (lstate l = None) = (completions l = 1) \<and>
        connector_unrefs (calls l) = replicate (completions l) 3 \<and>
        credentials_unrefs (calls l) = replicate (completions l) ssl_creds"
    by (simp only: fields)
  from sh1 1 sh2 p2 adm 2 fin show ?thesis
    by (intro conjI)
qed

subsection \<open>The handshake deadline\<close>

lemma time_nanos_add: "time_nanos (gpr_time_add a b) = time_nanos a + time_nanos b"
  by (simp add: time_nanos_def gpr_time_add_def Let_def algebra_simps)

text \<open>
  C9. On an active listener \<open>on_accept\<close> starts exactly one handshake, that of the manager it
  created, on the raw endpoint, with \<open>on_handshake_done\<close> as its callback and with a
  deadline exactly 120 seconds after the time read when the handshake is started, on the
  same clock. When the handshake never concludes, or concludes after the deadline, the
  handshake manager calls that callback with its timeout failure; \<open>on_handshake_done\<close> then
  takes its failure path (log, destroy the endpoint, free the read buffer) and the common
  cleanup, and the listener state is again what it was before the connection was
  accepted.
\<close>

theorem handshake_deadline_120_seconds:
  assumes active: "\<not> shutdown state"
    and deadline: "deadline = gpr_time_add now (gpr_time_from_seconds 120 GPR_TIMESPAN)"
    and cst: "cst = \<lparr>accepting_pollset = pollset, acceptor = acc, handshake_mgr = hm\<rparr>"
  shows "handshakes_started (snd (on_accept state tcp pollset acc hm now)) =
           [(hm, tcp, deadline, On_handshake_done, cst)] \<and>
         time_nanos deadline = time_nanos now + 120 * 1000000000 \<and>
         clock_type deadline = clock_type now \<and>
         handshake_manager_result timeout_error deadline None = Some timeout_error \<and>
         (time_nanos deadline < time_nanos t \<longrightarrow>
            handshake_manager_result timeout_error deadline (Some (t, result))
              = Some timeout_error) \<and>
         on_handshake_done (fst (on_accept state tcp pollset acc hm now))
             \<lparr>endpoint = tcp, args = a, read_buffer = rb, user_data = cst\<rparr>
             (Some timeout_error) =
           (state,
            [Gpr (Log_error_handshaking_failed (Some timeout_error)),
             Iomgr (Endpoint_destroy tcp), Gpr (Free_read_buffer rb), Gpr Mu_lock,
             Gpr (Free_node hm), Gpr Mu_unlock, Grpc (Handshake_manager_destroy hm),
             Iomgr (Tcp_server_unref (tcp_server state)), Gpr (Free_connection_state cst),
             Grpc (Channel_args_destroy a)])"
proof -
  have t: "time_nanos deadline = time_nanos now + 120 * 1000000000"
    by (simp add: deadline time_nanos_add) (simp add: time_nanos_def gpr_time_from_seconds_def)
  have c: "clock_type deadline = clock_type now"
    by (simp add: deadline gpr_time_add_def Let_def)
  from active have h: "handshakes_started (snd (on_accept state tcp pollset acc hm now)) =
           [(hm, tcp, deadline, On_handshake_done, cst)]"
    by (simp add: on_accept_def Let_def pending_handshake_manager_add_locked_def deadline cst)
  have r: "handshake_manager_result timeout_error deadline None = Some timeout_error"
    "time_nanos deadline < time_nanos t \<longrightarrow>
       handshake_manager_result timeout_error deadline (Some (t, result)) = Some timeout_error"
    by (simp_all add: handshake_manager_result_def)
  from active have d: "on_handshake_done (fst (on_accept state tcp pollset acc hm now))
             \<lparr>endpoint = tcp, args = a, read_buffer = rb, user_data = cst\<rparr>
             (Some timeout_error) =
           (state,
            [Gpr (Log_error_handshaking_failed (Some timeout_error)),
             Iomgr (Endpoint_destroy tcp), Gpr (Free_read_buffer rb), Gpr Mu_lock,
             Gpr (Free_node hm), Gpr Mu_unlock, Grpc (Handshake_manager_destroy hm),
             Iomgr (Tcp_server_unref (tcp_server state)), Gpr (Free_connection_state cst),
             Grpc (Channel_args_destroy a)])"
    by (simp add: on_accept_def Let_def pending_handshake_manager_add_locked_def cst
        on_handshake_done_def on_handshake_done_branch_def
        pending_handshake_manager_remove_locked_def)
  from h t c r d show ?thesis by (intro conjI)
qed

theorem handshake_deadline_120_seconds_witness:
  "\<not> shutdown active_listener \<and>
   handshakes_started (snd (on_accept active_listener 7 5 6 13 monotonic_now)) =
     [(13, 7, \<lparr>tv_sec = 1120, tv_nsec = 999999999, clock_type = GPR_CLOCK_MONOTONIC\<rparr>,
       On_handshake_done, \<lparr>accepting_pollset = 5, acceptor = 6, handshake_mgr = 13\<rparr>)] \<and>
   time_nanos \<lparr>tv_sec = 1120, tv_nsec = 999999999, clock_type = GPR_CLOCK_MONOTONIC\<rparr> =
     time_nanos monotonic_now + 120 * 1000000000 \<and>
   time_nanos \<lparr>tv_sec = 1120, tv_nsec = 999999999, clock_type = GPR_CLOCK_MONOTONIC\<rparr> <
     time_nanos \<lparr>tv_sec = 1121, tv_nsec = 0, clock_type = GPR_CLOCK_MONOTONIC\<rparr> \<and>
   handshake_manager_result (Collaborator_error 2)
     \<lparr>tv_sec = 1120, tv_nsec = 999999999, clock_type = GPR_CLOCK_MONOTONIC\<rparr>
     (Some (\<lparr>tv_sec = 1121, tv_nsec = 0, clock_type = GPR_CLOCK_MONOTONIC\<rparr>, GRPC_ERROR_NONE)) =
     Some (Collaborator_error 2) \<and>
   on_handshake_done (fst (on_accept active_listener 7 5 6 13 monotonic_now))
       \<lparr>endpoint = 7, args = Channel_args 8, read_buffer = 9,
          user_data = \<lparr>accepting_pollset = 5, acceptor = 6, handshake_mgr = 13\<rparr>\<rparr>
       (Some (Collaborator_error 2)) =
     (active_listener,
      [Gpr (Log_error_handshaking_failed (Some (Collaborator_error 2))),
       Iomgr (Endpoint_destroy 7), Gpr (Free_read_buffer 9), Gpr Mu_lock,
       Gpr (Free_node 13), Gpr Mu_unlock, Grpc (Handshake_manager_destroy 13),
       Iomgr (Tcp_server_unref (tcp_server active_listener)),
       Gpr (Free_connection_state \<lparr>accepting_pollset = 5, acceptor = 6, handshake_mgr = 13\<rparr>),
       Grpc (Channel_args_destroy (Channel_args 8))])"
proof -
  let ?deadline = "\<lparr>tv_sec = 1120, tv_nsec = 999999999, clock_type = GPR_CLOCK_MONOTONIC\<rparr>"
  let ?late = "\<lparr>tv_sec = 1121, tv_nsec = 0, clock_type = GPR_CLOCK_MONOTONIC\<rparr>"
  have a: "\<not> shutdown active_listener"
    by (simp add: active_listener_def)
  have d: "?deadline = gpr_time_add monotonic_now (gpr_time_from_seconds 120 GPR_TIMESPAN)"
    by (simp add: gpr_time_add_def gpr_time_from_seconds_def monotonic_now_def)
  have l: "time_nanos ?deadline < time_nanos ?late"
    by (simp add: time_nanos_def)
  from handshake_deadline_120_seconds [OF a d refl,
      where t = ?late and timeout_error = "Collaborator_error 2" and result = GRPC_ERROR_NONE
        and tcp = 7 and a = "Channel_args 8" and rb = 9] a l
  show ?thesis by blast
qed

end
